theory Spec2Isabelle
  imports Complex_Main
begin

section \<open>Impulcifer: impulse-response extraction (impulcifer.py)\<close>

text \<open>
  The program is Python on top of numpy, scipy and pydub. The embedding follows
  \<^verbatim>\<open>src/impulcifer.py\<close> function by function. Python exceptions are values of
  \<open>error\<close>; a function that can raise returns \<open>error + 'a\<close> with \<open>Inl\<close> the
  exception. Python floats are modelled by exact reals: every theorem below is about
  which samples are kept, which branch is taken and which slice of a list is read,
  and the concrete inputs used are far from any rounding boundary.
\<close>

subsection \<open>Exceptions\<close>

datatype error =
    NotImplementedError string
  | TypeError string
  | ValueError "string list"
  | IndexError
  | KeyError string
  | UnboundLocalError string
  | FileNotFoundError string
  | ZeroDivisionError
  | AttributeError
  | TooManyMissingFrames

text \<open>Sequencing: the first exception ends the computation.\<close>

definition bind :: "error + 'a \<Rightarrow> ('a \<Rightarrow> error + 'b) \<Rightarrow> error + 'b" where
  "bind m f = (case m of Inl e \<Rightarrow> Inl e | Inr x \<Rightarrow> f x)"

subsection \<open>Python built-ins used by the program\<close>

text \<open>\<^verbatim>\<open>round(x)\<close> of Python 3: to the nearest integer, ties to the even one.\<close>

definition py_round :: "real \<Rightarrow> int" where
  "py_round x =
     (let f = \<lfloor>x\<rfloor>; r = x - of_int f
      in if r < 1 / 2 then f else if 1 / 2 < r then f + 1
         else if even f then f else f + 1)"

text \<open>\<^verbatim>\<open>int(x)\<close> of a float: truncation toward zero.\<close>

definition py_int :: "real \<Rightarrow> int" where
  "py_int x = (if 0 \<le> x then \<lfloor>x\<rfloor> else \<lceil>x\<rceil>)"

text \<open>
  A slice bound of a sequence of length \<open>n\<close>: a negative bound counts from the end,
  and every bound is clipped to \<open>0..n\<close>. \<open>py_slice xs a b\<close> is \<^verbatim>\<open>xs[a:b]\<close>.
\<close>

definition py_index :: "nat \<Rightarrow> int \<Rightarrow> nat" where
  "py_index n i = (if i < 0 then nat (int n + i) else min (nat i) n)"

definition py_slice :: "'a list \<Rightarrow> int \<Rightarrow> int \<Rightarrow> 'a list" where
  "py_slice xs a b =
     (let lo = py_index (length xs) a; hi = py_index (length xs) b
      in take (hi - lo) (drop lo xs))"

subsection \<open>pydub's AudioSegment\<close>

text \<open>
  An \<^verbatim>\<open>AudioSegment\<close> holds interleaved frames, a frame rate and a sample width in
  bytes. The model keeps one sample list per channel (\<open>tracks\<close>, all of one length),
  which is what \<^verbatim>\<open>split_to_mono\<close> and \<^verbatim>\<open>from_mono_audiosegments\<close> convert to and
  from; a mono segment has one track. Positions and lengths of pydub's interface are
  in milliseconds.
\<close>

record AudioSegment =
  tracks :: "int list list"
  frame_rate :: nat
  sample_width :: nat

definition mono_segment :: "int list \<Rightarrow> nat \<Rightarrow> nat \<Rightarrow> AudioSegment" where
  "mono_segment xs fs w = \<lparr>tracks = [xs], frame_rate = fs, sample_width = w\<rparr>"

definition channels :: "AudioSegment \<Rightarrow> nat" where
  "channels seg = length (tracks seg)"

text \<open>\<^verbatim>\<open>seg.frame_count()\<close>: the number of frames held.\<close>

definition frames :: "AudioSegment \<Rightarrow> nat" where
  "frames seg = (case tracks seg of [] \<Rightarrow> 0 | t # _ \<Rightarrow> length t)"

text \<open>\<^verbatim>\<open>seg.frame_count(ms=ms)\<close> is \<^verbatim>\<open>ms * (self.frame_rate / 1000.0)\<close>.\<close>

definition frame_count_ms :: "AudioSegment \<Rightarrow> real \<Rightarrow> real" where
  "frame_count_ms seg ms = ms * (real (frame_rate seg) / 1000)"

text \<open>\<^verbatim>\<open>len(seg)\<close> is \<^verbatim>\<open>round(1000 * (self.frame_count() / self.frame_rate))\<close>.\<close>

definition len_ms :: "AudioSegment \<Rightarrow> int" where
  "len_ms seg = py_round (1000 * (real (frames seg) / real (frame_rate seg)))"

text \<open>
  \<^verbatim>\<open>_parse_position(val)\<close>: a negative position is taken from the end of the
  segment (\<^verbatim>\<open>len(self) - abs(val)\<close>), and the position in milliseconds becomes a
  frame index by \<^verbatim>\<open>int(self.frame_count(ms=val))\<close>.
\<close>

definition parse_position :: "AudioSegment \<Rightarrow> real \<Rightarrow> int" where
  "parse_position seg val =
     py_int (frame_count_ms seg (if val < 0 then of_int (len_ms seg) - \<bar>val\<bar> else val))"

text \<open>
  \<^verbatim>\<open>seg[start:stop]\<close> (\<^verbatim>\<open>__getitem__\<close> with a slice): both bounds are clipped
  to \<^verbatim>\<open>len(self)\<close>, turned into frame indices, and the frames between them are
  read with Python's slice. When fewer frames than \<^verbatim>\<open>end - start\<close> were read, the
  result is filled up with silent frames (copies of its first frame scaled by zero,
  so nothing when it is empty), unless more than two milliseconds are missing.
\<close>

definition getitem_slice :: "AudioSegment \<Rightarrow> real option \<Rightarrow> real option \<Rightarrow> error + AudioSegment" where
  "getitem_slice seg start stop =
     (let l = of_int (len_ms seg);
          s = parse_position seg (min (case start of None \<Rightarrow> 0 | Some v \<Rightarrow> v) l);
          e = parse_position seg (min (case stop of None \<Rightarrow> l | Some v \<Rightarrow> v) l);
          data = map (\<lambda>t. py_slice t s e) (tracks seg);
          missing_frames = (e - s) - (case data of [] \<Rightarrow> 0 | t # _ \<Rightarrow> int (length t))
      in if missing_frames \<noteq> 0 \<and> frame_count_ms seg 2 < of_int missing_frames
         then Inl TooManyMissingFrames
         else Inr (seg\<lparr>tracks :=
                map (\<lambda>t. if t = [] then t else t @ replicate (nat missing_frames) 0) data\<rparr>))"

text \<open>
  \<^verbatim>\<open>get_array_of_samples()\<close>: the samples frame by frame, the channels of a frame
  side by side. For a mono segment this is its track.
\<close>

definition get_array_of_samples :: "AudioSegment \<Rightarrow> int list" where
  "get_array_of_samples seg = concat (transpose (tracks seg))"

text \<open>\<^verbatim>\<open>split_to_mono()\<close>: one mono segment per channel.\<close>

definition split_to_mono :: "AudioSegment \<Rightarrow> AudioSegment list" where
  "split_to_mono seg = map (\<lambda>t. seg\<lparr>tracks := [t]\<rparr>) (tracks seg)"

text \<open>
  \<^verbatim>\<open>AudioSegment.from_mono_audiosegments(*segs)\<close>. At least one segment is
  required. pydub first brings the segments to their largest sample width
  (\<^verbatim>\<open>_sync\<close>; \<^verbatim>\<open>audioop.lin2lin\<close> shifts a sample by eight bits per byte
  gained), raises a ValueError unless all are mono, and the slice assignment
  \<^verbatim>\<open>data[i::channels] = ...\<close> raises a ValueError when a segment is shorter than
  the longest. Every call of this program passes segments of one frame rate, where
  \<^verbatim>\<open>_sync\<close> leaves the rate alone.
\<close>

definition set_sample_width :: "nat \<Rightarrow> AudioSegment \<Rightarrow> AudioSegment" where
  "set_sample_width w seg =
     (if w = sample_width seg then seg
      else seg\<lparr>tracks := map (map (\<lambda>v. v * 2 ^ (8 * (w - sample_width seg)))) (tracks seg),
               sample_width := w\<rparr>)"

definition from_mono_audiosegments :: "AudioSegment list \<Rightarrow> error + AudioSegment" where
  "from_mono_audiosegments mono_segments =
     (case mono_segments of
        [] \<Rightarrow> Inl (ValueError [''At least one AudioSegment instance is required''])
      | s # _ \<Rightarrow>
          (let w = Max (set (map sample_width mono_segments));
               segs = map (set_sample_width w) mono_segments
           in if \<exists>x \<in> set segs. channels x \<noteq> 1
              then Inl (ValueError [''requires all arguments are mono AudioSegment instances''])
              else if \<exists>x \<in> set segs. frames x \<noteq> Max (set (map frames segs))
              then Inl (ValueError [''attempt to assign array to extended slice of another size''])
              else Inr \<lparr>tracks = map get_array_of_samples segs,
                        frame_rate = frame_rate s, sample_width = w\<rparr>))"

text \<open>
  \<^verbatim>\<open>AudioSegment.silent(duration, frame_rate)\<close>: 16-bit mono silence of
  \<^verbatim>\<open>int(frame_rate * (duration / 1000.0))\<close> frames.
\<close>

definition silent :: "int \<Rightarrow> nat \<Rightarrow> AudioSegment" where
  "silent duration fs =
     mono_segment (replicate (nat (py_int (real fs * (of_int duration / 1000)))) 0) fs 2"

text \<open>
  \<^verbatim>\<open>seg.rms\<close> is \<^verbatim>\<open>audioop.rms\<close>: the square root of the mean of the squared
  samples, cut to an integer; 0 for no samples.
\<close>

definition rms :: "AudioSegment \<Rightarrow> int" where
  "rms seg =
     (let xs = get_array_of_samples seg
      in if xs = [] then 0
         else \<lfloor>sqrt (real_of_int (sum_list (map (\<lambda>x. x * x) xs)) / real (length xs))\<rfloor>)"

subsection \<open>to\_float\<close>

text \<open>
  The numpy dtype of \<^verbatim>\<open>np.array(seg.get_array_of_samples())\<close> follows the sample
  width (pydub's array types \<^verbatim>\<open>b\<close>, \<^verbatim>\<open>h\<close>, \<^verbatim>\<open>i\<close>). \<^verbatim>\<open>to_float\<close> scales
  int32 and int16; its third case, uint8, is no dtype pydub produces, and int8
  samples are converted to float unscaled.
\<close>

datatype dtype = Int8 | Int16 | Int32 | UInt8

definition array_dtype :: "AudioSegment \<Rightarrow> dtype" where
  "array_dtype seg =
     (if sample_width seg = 1 then Int8 else if sample_width seg = 2 then Int16 else Int32)"

definition to_float :: "dtype \<Rightarrow> int list \<Rightarrow> real list" where
  "to_float dt x =
     (let x1 = map real_of_int x;
          x2 = (if dt = Int32 then map (\<lambda>v. v / 2 ^ 31) x1 else x1)
      in if dt = Int16 then map (\<lambda>v. v / 2 ^ 15) x2
         else if dt = UInt8 then map (\<lambda>v. v / 2 ^ 8 * 2 - 1) x2
         else x2)"

subsection \<open>zero\_pad and the packing step of main\<close>

text \<open>
  \<^verbatim>\<open>np.zeros\<close> raises a ValueError for a negative length. The result is a mono
  segment of the given rate and of the width of \<open>seg\<close>.
\<close>

definition zero_pad :: "AudioSegment \<Rightarrow> nat \<Rightarrow> nat \<Rightarrow> error + AudioSegment" where
  "zero_pad seg max_samples fs =
     (let seg_samples = get_array_of_samples seg;
          silence_length = int max_samples - int (length seg_samples)
      in if silence_length < 0 then Inl (ValueError [''negative dimensions are not allowed''])
         else Inr (mono_segment (seg_samples @ replicate (nat silence_length) 0) fs (sample_width seg)))"

text \<open>A list comprehension whose body can raise: the first exception wins.\<close>

fun map_result :: "('a \<Rightarrow> error + 'b) \<Rightarrow> 'a list \<Rightarrow> error + 'b list" where
  "map_result f [] = Inr []"
| "map_result f (x # xs) =
     (case f x of
        Inl e \<Rightarrow> Inl e
      | Inr y \<Rightarrow> (case map_result f xs of Inl e \<Rightarrow> Inl e | Inr ys \<Rightarrow> Inr (y # ys)))"

text \<open>
  Lines 410 to 414 of main: \<^verbatim>\<open>max\<close> of an empty list raises a ValueError;
  every cropped response is padded to the longest one.
\<close>

definition zero_pad_to_longest :: "AudioSegment list \<Rightarrow> nat \<Rightarrow> error + AudioSegment list" where
  "zero_pad_to_longest cropped fs =
     (if cropped = [] then Inl (ValueError [''max() arg is an empty sequence''])
      else map_result
             (\<lambda>response.
                zero_pad response
                  (Max (set (map (\<lambda>ir. length (get_array_of_samples ir)) cropped))) fs)
             cropped)"

subsection \<open>split\_recording\<close>

text \<open>
  The loop over \<^verbatim>\<open>range(n_speakers)\<close>: each round cuts one column of \<open>ms\<close>
  milliseconds off the front of \<open>remainder\<close> and splits it to mono.
\<close>

fun split_columns :: "nat \<Rightarrow> real \<Rightarrow> AudioSegment \<Rightarrow> error + AudioSegment list list" where
  "split_columns 0 ms remainder = Inr []"
| "split_columns (Suc k) ms remainder =
     (case getitem_slice remainder None (Some ms) of
        Inl e \<Rightarrow> Inl e
      | Inr column \<Rightarrow>
          (case getitem_slice remainder (Some ms) None of
             Inl e \<Rightarrow> Inl e
           | Inr rest \<Rightarrow>
               (case split_columns k ms rest of
                  Inl e \<Rightarrow> Inl e
                | Inr columns \<Rightarrow> Inr (split_to_mono column # columns))))"

text \<open>\<^verbatim>\<open>xs[i]\<close> for \<open>i \<ge> 0\<close>: an IndexError past the end.\<close>

definition getitem :: "'a list \<Rightarrow> nat \<Rightarrow> error + 'a" where
  "getitem xs i = (if i < length xs then Inr (xs ! i) else Inl IndexError)"

text \<open>
  The loop \<^verbatim>\<open>while i < recording.channels\<close>: for the track pair \<open>i\<close>,
  \<open>i + 1\<close>, the two excerpts of every column in turn.
\<close>

function split_tracks :: "AudioSegment list list \<Rightarrow> nat \<Rightarrow> nat \<Rightarrow> error + AudioSegment list" where
  "split_tracks columns n_channels i =
     (if i < n_channels then
        (case map_result
                (\<lambda>column.
                   case getitem column i of
                     Inl e \<Rightarrow> Inl e
                   | Inr l \<Rightarrow> (case getitem column (i + 1) of Inl e \<Rightarrow> Inl e | Inr r \<Rightarrow> Inr [l, r]))
                columns of
           Inl e \<Rightarrow> Inl e
         | Inr pairs \<Rightarrow>
             (case split_tracks columns n_channels (i + 2) of
                Inl e \<Rightarrow> Inl e
              | Inr rest \<Rightarrow> Inr (concat pairs @ rest)))
      else Inr [])"
  by pat_completeness auto
termination
  by (relation "measure (\<lambda>(columns, n_channels, i). n_channels - i)") auto

declare split_tracks.simps [simp del]

definition split_recording ::
    "AudioSegment \<Rightarrow> AudioSegment \<Rightarrow> string list \<Rightarrow> real \<Rightarrow> error + AudioSegment" where
  "split_recording recording test_signal speakers silence_length =
     (if channels recording div 2 = 0 then Inl ZeroDivisionError
      else
        let n_speakers = length speakers div (channels recording div 2);
            ms = silence_length * 1000 + of_int (len_ms test_signal)
        in case getitem_slice recording (Some (silence_length * 1000)) None of
             Inl e \<Rightarrow> Inl e
           | Inr remainder \<Rightarrow>
               (case split_columns n_speakers ms remainder of
                  Inl e \<Rightarrow> Inl e
                | Inr columns \<Rightarrow>
                    (case split_tracks columns (channels recording) 0 of
                       Inl e \<Rightarrow> Inl e
                     | Inr track_list \<Rightarrow> from_mono_audiosegments track_list)))"

subsection \<open>crop\_ir\_tail\<close>

text \<open>
  numpy floats that can be \<^verbatim>\<open>nan\<close> are \<open>real option\<close> with \<open>None\<close> for nan:
  \<^verbatim>\<open>np.mean\<close> of an empty array is nan (with a warning, no exception), nan
  spreads through \<^verbatim>\<open>np.sqrt\<close>, \<^verbatim>\<open>np.mean\<close>, \<^verbatim>\<open>*\<close> and \<^verbatim>\<open>np.max\<close>, and
  every comparison with nan is false.
\<close>

definition np_mean :: "real list \<Rightarrow> real option" where
  "np_mean xs = (if xs = [] then None else Some (sum_list xs / real (length xs)))"

definition np_mean_nan :: "real option list \<Rightarrow> real option" where
  "np_mean_nan xs = (if None \<in> set xs then None else np_mean (map the xs))"

definition np_gt :: "real option \<Rightarrow> real option \<Rightarrow> bool" where
  "np_gt a b = (case (a, b) of (Some x, Some y) \<Rightarrow> y < x | _ \<Rightarrow> False)"

text \<open>\<^verbatim>\<open>np.sqrt(np.mean(np.square(to_float(window))))\<close>\<close>

definition window_rms :: "dtype \<Rightarrow> int list \<Rightarrow> real option" where
  "window_rms dt window = map_option sqrt (np_mean (map (\<lambda>v. v * v) (to_float dt window)))"

text \<open>
  The list \<open>rms\<close> of lines 136 to 141: one value per \<open>j\<close> of
  \<^verbatim>\<open>range(1, len(response))\<close>, over the \<open>n\<close> samples \<^verbatim>\<open>data[(j - 1) * n:j * n]\<close>.
\<close>

definition sliding_rms :: "AudioSegment \<Rightarrow> real option list" where
  "sliding_rms response =
     (let data = get_array_of_samples response;
          n = frame_rate response div 1000
      in map (\<lambda>j. window_rms (array_dtype response)
                      (py_slice data (int ((j - 1) * n)) (int (j * n))))
           [1..<nat (len_ms response)])"

text \<open>
  Line 145: \<^verbatim>\<open>np.max([np.mean(rms[-10:-1]) * 10, 10.0 ** (-60.0 / 10.0)])\<close>.
\<close>

definition noise_floor :: "real option list \<Rightarrow> real option" where
  "noise_floor rms_list =
     (case np_mean_nan (py_slice rms_list (- 10) (- 1)) of
        None \<Rightarrow> None
      | Some m \<Rightarrow> Some (max (m * 10) (1 / 10 ^ 6)))"

text \<open>
  Lines 148 to 152: \<open>j\<close> runs down from \<^verbatim>\<open>len(rms) - 1\<close> to 2; the loop
  leaves at the first window above the noise floor, and \<open>end\<close> is the last \<open>j\<close>
  that was not above it (\<open>-1\<close> when there was none).
\<close>

fun tail_scan :: "real option list \<Rightarrow> real option \<Rightarrow> nat \<Rightarrow> int \<Rightarrow> int" where
  "tail_scan rms_list nf 0 end_ms = end_ms"
| "tail_scan rms_list nf (Suc 0) end_ms = end_ms"
| "tail_scan rms_list nf (Suc (Suc k)) end_ms =
     (if np_gt (rms_list ! Suc (Suc k)) nf then end_ms
      else tail_scan rms_list nf (Suc k) (int (Suc (Suc k))))"

definition crop_ir_tail :: "AudioSegment \<Rightarrow> error + AudioSegment" where
  "crop_ir_tail response =
     (let rms_list = sliding_rms response;
          end_ms = tail_scan rms_list (noise_floor rms_list) (length rms_list - 1) (- 1)
      in getitem_slice response None (Some (of_int end_ms)))"

subsection \<open>crop\_ir\_head\<close>

definition CHANNELS :: "string list" where
  "CHANNELS = [''FL'', ''FR'', ''FC'', ''BL'', ''BR'', ''SL'', ''SR'']"

definition IR_ORDER :: "string list" where
  "IR_ORDER = concat (map (\<lambda>ch. [ch @ ''-left'', ch @ ''-right'']) CHANNELS)"

definition DELAYS :: "string \<Rightarrow> real option" where
  "DELAYS = map_of
     [(''FL'', 1487 / 10000), (''FR'', 1487 / 10000), (''FC'', 2557 / 10000),
      (''BL'', 1487 / 10000), (''BR'', 1487 / 10000), (''SL'', 417 / 10000),
      (''SR'', 417 / 10000)]"

text \<open>
  \<^verbatim>\<open>audioop.mul\<close> on one sample: the product is cut to an integer and clipped to
  the range of the sample width.
\<close>

definition audioop_mul :: "nat \<Rightarrow> int \<Rightarrow> real \<Rightarrow> int" where
  "audioop_mul w v factor =
     max (- (2 ^ (8 * w - 1))) (min (2 ^ (8 * w - 1) - 1) \<lfloor>of_int v * factor\<rfloor>)"

text \<open>
  \<^verbatim>\<open>seg.fade_in(duration)\<close> is \<^verbatim>\<open>fade(from_gain=-120, duration=duration, start=0)\<close>.
  For a duration of at most 100 ms (the only ones this program asks for) pydub fades
  frame by frame: the frames \<open>i\<close> below \<^verbatim>\<open>int(fade_frames)\<close> are scaled by
  \<^verbatim>\<open>from_power + scale_step * i\<close>, and \<^verbatim>\<open>self[end:]\<close> follows them unchanged.
  The part before the fade, \<^verbatim>\<open>self[:0]\<close>, is empty.
\<close>

definition fade_in :: "AudioSegment \<Rightarrow> real \<Rightarrow> error + AudioSegment" where
  "fade_in seg duration =
     (let from_power = 1 / 10 ^ 6;
          gain_delta = 1 - from_power;
          fade_frames = frame_count_ms seg duration;
          scale_step = gain_delta / fade_frames;
          k = nat (py_int fade_frames)
      in case getitem_slice seg (Some duration) None of
           Inl e \<Rightarrow> Inl e
         | Inr after_fade \<Rightarrow>
             Inr (seg\<lparr>tracks :=
                    map2 (\<lambda>t a.
                            map (\<lambda>i. audioop_mul (sample_width seg) (t ! i)
                                       (from_power + scale_step * real i))
                              [0..<min k (length t)] @ a)
                      (tracks seg) (tracks after_fade)\<rparr>))"

text \<open>
  Lines 184 to 199 after the direction check: both ears are cut at their start
  positions, faded in over \<^verbatim>\<open>2/frame_rate/1000\<close> milliseconds, and cropped by
  \<^verbatim>\<open>seg[:(int(len(seg) / 1000 * seg.frame_rate) - 1) / seg.frame_rate * 1000]\<close>.
\<close>

definition crop_to_samples :: "AudioSegment \<Rightarrow> error + AudioSegment" where
  "crop_to_samples seg =
     getitem_slice seg None
       (Some (of_int (py_int (of_int (len_ms seg) / 1000 * real (frame_rate seg)) - 1)
                / real (frame_rate seg) * 1000))"

definition trim_heads ::
    "AudioSegment \<Rightarrow> real \<Rightarrow> AudioSegment \<Rightarrow> real \<Rightarrow> error + AudioSegment \<times> AudioSegment" where
  "trim_heads left start_left right start_right =
     bind (getitem_slice left (Some start_left) None) (\<lambda>l1.
     bind (getitem_slice right (Some start_right) None) (\<lambda>r1.
     bind (fade_in l1 (2 / real (frame_rate l1) / 1000)) (\<lambda>l2.
     bind (fade_in r1 (2 / real (frame_rate r1) / 1000)) (\<lambda>r2.
     bind (crop_to_samples l2) (\<lambda>l3.
     bind (crop_to_samples r2) (\<lambda>r3. Inr (l3, r3)))))))"

text \<open>
  The peak detection
  \<^verbatim>\<open>signal.find_peaks(to_float(np.array(seg.normalize().get_array_of_samples())), height=0.1)\<close>
  is scipy and pydub code on floats; \<open>crop_ir_head\<close> takes it as the parameter
  \<open>find_peaks\<close>, which gives the indices of the peaks found, in rising order.
  \<^verbatim>\<open>peak[0]\<close> of no peaks is an IndexError, \<^verbatim>\<open>DELAYS[speaker]\<close> of an unknown
  speaker a KeyError.
\<close>

definition crop_ir_head ::
    "(AudioSegment \<Rightarrow> nat list) \<Rightarrow> AudioSegment \<Rightarrow> AudioSegment \<Rightarrow> string
       \<Rightarrow> error + AudioSegment \<times> AudioSegment" where
  "crop_ir_head find_peaks left right speaker =
     (case find_peaks left of
        [] \<Rightarrow> Inl IndexError
      | pl # _ \<Rightarrow>
          (case find_peaks right of
             [] \<Rightarrow> Inl IndexError
           | pr # _ \<Rightarrow>
               (let peak_left = real pl / real (frame_rate left) * 1000;
                    peak_right = real pr / real (frame_rate right) * 1000;
                    itd = \<bar>peak_left - peak_right\<bar>
                in case DELAYS speaker of
                     None \<Rightarrow> Inl (KeyError speaker)
                   | Some delay \<Rightarrow>
                       if peak_left < peak_right then
                         if speaker ! 1 = CHR ''R'' then
                           Inl (ValueError
                                  [speaker,
                                   ''impulse response has lower delay to left ear than to right.''])
                         else trim_heads left (peak_left - delay)
                                right (peak_right - (delay + itd))
                       else
                         if speaker ! 1 = CHR ''L'' then
                           Inl (ValueError
                                  [speaker,
                                   ''impulse response has lower delay to right ear than to left.''])
                         else trim_heads left (peak_left - (delay + itd))
                                right (peak_right - delay))))"

subsection \<open>main\<close>

text \<open>
  The arguments of \<^verbatim>\<open>main\<close>; \<open>None\<close> is Python's \<^verbatim>\<open>None\<close>. The files that
  can be read are a map from paths to segments, and the result of a run that raises
  nothing is the set of files it wrote under \<^verbatim>\<open>out/\<close>.
\<close>

record args =
  arg_measure :: bool
  arg_preprocess :: bool
  arg_deconvolve :: bool
  arg_postprocess :: bool
  arg_equalize :: bool
  arg_recording :: "string option"
  arg_test :: "string option"
  arg_responses :: "string option"
  arg_speakers :: "string list option"
  arg_silence_length :: "real option"
  arg_headphones :: "string option"

record files =
  preprocessed_wav :: "AudioSegment option"
  tests_wav :: "AudioSegment option"
  responses_wav :: "AudioSegment option"
  hrir_wav :: "AudioSegment option"
  hesuvi_wav :: "AudioSegment option"
  headphones_csv :: "string list list option"

text \<open>
  What main computes with numpy, scipy and pydub on floats, and which no claim is
  about, is a parameter of the model: the peak detection of \<open>crop_ir_head\<close>,
  \<^verbatim>\<open>AudioSegment.normalize\<close>, the frequency-domain deconvolution of one channel
  (\<^verbatim>\<open>np.multiply(deconv(y, x, domain='frequency'), 2**31).astype('int32')\<close>), and
  the lines main writes for the headphone recording.
\<close>

record externals =
  ext_find_peaks :: "AudioSegment \<Rightarrow> nat list"
  ext_normalize :: "AudioSegment \<Rightarrow> AudioSegment"
  ext_deconv :: "int list \<Rightarrow> int list \<Rightarrow> int list"
  ext_equalize :: "AudioSegment \<Rightarrow> error + string list list"

text \<open>Python's \<^verbatim>\<open>not x\<close> for the argument types: None, an empty string or list, and 0.\<close>

definition falsy_str :: "string option \<Rightarrow> bool" where
  "falsy_str x = (x = None \<or> x = Some [])"

definition falsy_list :: "string list option \<Rightarrow> bool" where
  "falsy_list x = (x = None \<or> x = Some [])"

definition falsy_float :: "real option \<Rightarrow> bool" where
  "falsy_float x = (x = None \<or> x = Some 0)"

text \<open>
  Lines 261 to 285. The messages are the program's, without their quotation marks.
\<close>

definition parameter_checks :: "args \<Rightarrow> error + unit" where
  "parameter_checks a =
     (if arg_measure a then Inl (NotImplementedError ''Measurement is not yet implemented.'')
      else if (arg_preprocess a \<or> arg_postprocess a) \<and> falsy_list (arg_speakers a)
      then Inl (TypeError ''Parameter speakers is required for pre-processing.'')
      else if arg_preprocess a \<and> \<not> (\<not> falsy_str (arg_recording a) \<or> arg_measure a)
      then Inl (TypeError
                  ''Parameter recording is required for pre-processing when not measuring.'')
      else if arg_preprocess a \<and> falsy_str (arg_test a)
      then Inl (TypeError ''Parameter test is required for pre-processing.'')
      else if arg_preprocess a \<and> falsy_float (arg_silence_length a)
      then Inl (TypeError ''Parameter silence_length is required for pre-processing.'')
      else if arg_deconvolve a \<and> falsy_str (arg_recording a)
      then Inl (TypeError ''Parameter recording is required for deconvolution.'')
      else if arg_deconvolve a \<and> falsy_str (arg_test a)
      then Inl (TypeError ''Parameter test is required for deconvolution.'')
      else if arg_postprocess a \<and> \<not> (\<not> falsy_str (arg_responses a) \<or> arg_deconvolve a)
      then Inl (TypeError
                  ''Parameter responses is required for post-processing when not doing deconvolution.'')
      else if arg_equalize a \<and> falsy_str (arg_headphones a)
      then Inl (TypeError ''Parameter headphones is required for equalization.'')
      else Inr ())"

text \<open>\<^verbatim>\<open>AudioSegment.from_wav(path)\<close>\<close>

definition from_wav :: "(string \<Rightarrow> AudioSegment option) \<Rightarrow> string \<Rightarrow> error + AudioSegment" where
  "from_wav disk path =
     (case disk path of None \<Rightarrow> Inl (FileNotFoundError path) | Some seg \<Rightarrow> Inr seg)"

text \<open>
  Lines 288 to 293: a file is read when its stage is asked for and its path is not
  None; otherwise the variable keeps the path or None, which is no segment.
\<close>

definition read_file ::
    "(string \<Rightarrow> AudioSegment option) \<Rightarrow> bool \<Rightarrow> string option \<Rightarrow> error + AudioSegment option" where
  "read_file disk wanted path =
     (case path of
        Some p \<Rightarrow> if wanted then bind (from_wav disk p) (\<lambda>seg. Inr (Some seg)) else Inr None
      | None \<Rightarrow> Inr None)"

text \<open>\<^verbatim>\<open>xs.index(x)\<close> for an \<open>x\<close> that is in \<open>xs\<close>.\<close>

definition index_of :: "'a list \<Rightarrow> 'a \<Rightarrow> nat" where
  "index_of xs x = length (takeWhile (\<lambda>y. y \<noteq> x) xs)"

text \<open>Lines 304 to 341: pre-processing. It gives \<open>preprocessed\<close> and the duplicated test track.\<close>

definition preprocess_stage ::
    "externals \<Rightarrow> AudioSegment \<Rightarrow> AudioSegment \<Rightarrow> string list \<Rightarrow> real
       \<Rightarrow> error + AudioSegment \<times> AudioSegment" where
  "preprocess_stage ext recording test speakers silence_length =
     bind (split_recording recording test speakers silence_length) (\<lambda>split.
       let sweeps = split_to_mono split;
           sweep_order = concat (map (\<lambda>speaker. [speaker @ ''-left'', speaker @ ''-right''])
                                   speakers)
       in bind (map_result
                  (\<lambda>ch. if ch \<notin> set sweep_order
                        then bind (getitem sweeps 0)
                               (\<lambda>s0. Inr (silent (len_ms s0) (frame_rate s0)))
                        else getitem sweeps (index_of sweep_order ch))
                  IR_ORDER) (\<lambda>reordered.
          bind (from_mono_audiosegments reordered) (\<lambda>joined.
            let preprocessed = ext_normalize ext joined
            in bind (from_mono_audiosegments (replicate (channels preprocessed) test))
                 (\<lambda>tests. Inr (preprocessed, tests)))))"

text \<open>
  Lines 344 to 381: deconvolution. The local \<open>preprocessed\<close> is assigned in the
  pre-processing block only; \<open>None\<close> stands for the unassigned local, whose read
  raises an UnboundLocalError.
\<close>

definition deconvolve_stage ::
    "externals \<Rightarrow> AudioSegment option \<Rightarrow> AudioSegment option \<Rightarrow> error + AudioSegment" where
  "deconvolve_stage ext preprocessed_local test =
     (case preprocessed_local of
        None \<Rightarrow> Inl (UnboundLocalError ''preprocessed'')
      | Some preprocessed \<Rightarrow>
          (case test of
             None \<Rightarrow> Inl AttributeError
           | Some t \<Rightarrow>
               if frame_rate preprocessed \<noteq> frame_rate t
               then Inl (ValueError
                           [''Sampling frequencies of test tone and recording must match!''])
               else
                 bind (getitem (split_to_mono preprocessed) 0) (\<lambda>first.
                 bind (zero_pad t (length (get_array_of_samples first))
                         (frame_rate preprocessed)) (\<lambda>test_padded.
                   let x = get_array_of_samples test_padded
                   in from_mono_audiosegments
                        (map (\<lambda>lines.
                                if 2 < rms lines
                                then mono_segment
                                       (ext_deconv ext (get_array_of_samples lines) x)
                                       (frame_rate preprocessed) 4
                                else lines)
                           (split_to_mono preprocessed))))))"

text \<open>
  Lines 390 to 408: the loop over the pairs of \<open>responses\<close>, \<open>i\<close> the index of the
  left ear. \<^verbatim>\<open>responses[i+1]\<close> past the end is an IndexError, and so is
  \<^verbatim>\<open>CHANNELS[i//2]\<close> for an eighth pair.
\<close>

fun crop_responses ::
    "(AudioSegment \<Rightarrow> nat list) \<Rightarrow> AudioSegment list \<Rightarrow> nat \<Rightarrow> error + AudioSegment list" where
  "crop_responses find_peaks [] i = Inr []"
| "crop_responses find_peaks [left] i = Inl IndexError"
| "crop_responses find_peaks (left # right # rest) i =
     bind (if 2 < rms left \<and> 2 < rms right
           then bind (crop_ir_tail left) (\<lambda>l.
                bind (crop_ir_tail right) (\<lambda>r.
                bind (getitem CHANNELS (i div 2)) (\<lambda>speaker.
                  crop_ir_head find_peaks l r speaker)))
           else bind (getitem_slice left None (Some 1)) (\<lambda>l.
                bind (getitem_slice right None (Some 1)) (\<lambda>r. Inr (l, r))))
       (\<lambda>(l, r).
          bind (crop_responses find_peaks rest (i + 2)) (\<lambda>cropped. Inr (l # r # cropped)))"

definition hesuvi_order :: "string list" where
  "hesuvi_order =
     [''FL-left'', ''FL-right'', ''SL-left'', ''SL-right'', ''BL-left'', ''BL-right'',
      ''FC-left'', ''FR-right'', ''FR-left'', ''SR-right'', ''SR-left'', ''BR-right'',
      ''BR-left'', ''FC-right'']"

text \<open>Lines 384 to 424: post-processing. It gives the two files written.\<close>

definition postprocess_stage ::
    "externals \<Rightarrow> AudioSegment option \<Rightarrow> error + AudioSegment \<times> AudioSegment" where
  "postprocess_stage ext responses_local =
     (case responses_local of
        None \<Rightarrow> Inl AttributeError
      | Some responses \<Rightarrow>
          bind (crop_responses (ext_find_peaks ext) (split_to_mono responses) 0) (\<lambda>cropped.
          bind (zero_pad_to_longest cropped (frame_rate responses)) (\<lambda>padded.
          bind (from_mono_audiosegments padded) (\<lambda>standard.
          bind (map_result (\<lambda>ch. getitem padded (index_of IR_ORDER ch)) hesuvi_order)
            (\<lambda>reordered.
          bind (from_mono_audiosegments reordered) (\<lambda>hesuvi. Inr (standard, hesuvi)))))))"

definition main ::
    "externals \<Rightarrow> (string \<Rightarrow> AudioSegment option) \<Rightarrow> args \<Rightarrow> error + files" where
  "main ext disk a =
     bind (parameter_checks a) (\<lambda>_.
     bind (read_file disk (arg_preprocess a) (arg_recording a)) (\<lambda>recording.
     bind (read_file disk (arg_preprocess a \<or> arg_deconvolve a) (arg_test a)) (\<lambda>test.
     bind (read_file disk (arg_postprocess a) (arg_responses a)) (\<lambda>responses0.
     bind (if arg_preprocess a
           then (case (recording, test, arg_speakers a, arg_silence_length a) of
                   (Some r, Some t, Some sp, Some sl) \<Rightarrow>
                     bind (preprocess_stage ext r t sp sl) (\<lambda>(p, tests). Inr (Some p, Some tests))
                 | _ \<Rightarrow> Inl AttributeError)
           else Inr (None, None)) (\<lambda>(preprocessed, tests).
     bind (if arg_deconvolve a
           then bind (deconvolve_stage ext preprocessed test) (\<lambda>r. Inr (Some r, Some r))
           else Inr (responses0, None)) (\<lambda>(responses, written_responses).
     bind (if arg_postprocess a
           then bind (postprocess_stage ext responses) (\<lambda>(s, h). Inr (Some s, Some h))
           else Inr (None, None)) (\<lambda>(standard, hesuvi).
     bind (if arg_equalize a
           then (case arg_headphones a of
                   None \<Rightarrow> Inl AttributeError
                 | Some p \<Rightarrow>
                     bind (from_wav disk p) (\<lambda>h.
                     bind (ext_equalize ext h) (\<lambda>csv. Inr (Some csv))))
           else Inr None) (\<lambda>csv.
       Inr \<lparr>preprocessed_wav = preprocessed, tests_wav = tests,
            responses_wav = written_responses, hrir_wav = standard,
            hesuvi_wav = hesuvi, headphones_csv = csv\<rparr>))))))))"

subsection \<open>Concrete inputs\<close>

text \<open>Fourteen cropped 16-bit responses at 48 kHz, the longest of five samples.\<close>

definition fourteen :: "AudioSegment list" where
  "fourteen = [mono_segment [3, -1, 4] 48000 2, mono_segment [1] 48000 2,
     mono_segment [5, 9] 48000 2, mono_segment [2, 6, 5, 3, 5] 48000 2,
     mono_segment [8] 48000 2, mono_segment [9, 7] 48000 2, mono_segment [9] 48000 2,
     mono_segment [3, 2] 48000 2, mono_segment [3] 48000 2, mono_segment [8, 4] 48000 2,
     mono_segment [6] 48000 2, mono_segment [2, 6] 48000 2, mono_segment [4] 48000 2,
     mono_segment [3, 3, 8] 48000 2]"

text \<open>
  Stand-ins for the float computations, a silent 2 ms response file of 14 channels
  (16 bit, 48 kHz) with what post-processing makes of it, a stereo recording, a test
  signal, and the files on disk.
\<close>

definition ext0 :: externals where
  "ext0 = \<lparr>ext_find_peaks = (\<lambda>seg. []), ext_normalize = (\<lambda>seg. seg),
            ext_deconv = (\<lambda>y x. y), ext_equalize = (\<lambda>seg. Inr [])\<rparr>"

definition silent14 :: AudioSegment where
  "silent14 = \<lparr>tracks = replicate 14 (replicate 96 0), frame_rate = 48000, sample_width = 2\<rparr>"

definition placeholders14 :: AudioSegment where
  "placeholders14 =
     \<lparr>tracks = replicate 14 (replicate 48 0), frame_rate = 48000, sample_width = 2\<rparr>"

definition recording0 :: AudioSegment where
  "recording0 =
     \<lparr>tracks = [replicate 96 0, replicate 96 0], frame_rate = 48000, sample_width = 2\<rparr>"

definition test0 :: AudioSegment where
  "test0 = mono_segment (replicate 48 1000) 48000 2"

definition disk0 :: "string \<Rightarrow> AudioSegment option" where
  "disk0 path =
     (if path = ''recording.wav'' then Some recording0
      else if path = ''test.wav'' then Some test0
      else if path = ''responses.wav'' then Some silent14
      else None)"

text \<open>\<^verbatim>\<open>main(deconvolve=True, recording='recording.wav', test='test.wav')\<close>\<close>

definition args_deconvolve :: args where
  "args_deconvolve =
     \<lparr>arg_measure = False, arg_preprocess = False, arg_deconvolve = True,
      arg_postprocess = False, arg_equalize = False,
      arg_recording = Some ''recording.wav'', arg_test = Some ''test.wav'',
      arg_responses = None, arg_speakers = None, arg_silence_length = None,
      arg_headphones = None\<rparr>"

text \<open>\<^verbatim>\<open>main(postprocess=True, responses='responses.wav', speakers=speakers)\<close>\<close>

definition args_postprocess :: "string list option \<Rightarrow> args" where
  "args_postprocess speakers =
     \<lparr>arg_measure = False, arg_preprocess = False, arg_deconvolve = False,
      arg_postprocess = True, arg_equalize = False,
      arg_recording = None, arg_test = None,
      arg_responses = Some ''responses.wav'', arg_speakers = speakers,
      arg_silence_length = None, arg_headphones = None\<rparr>"

text \<open>A loud 2 ms ear buffer (16 bit, 48 kHz), and what main makes of one loop round.\<close>

definition loud96 :: AudioSegment where
  "loud96 = mono_segment (replicate 96 1000) 48000 2"

definition silent96 :: AudioSegment where
  "silent96 = mono_segment (replicate 96 0) 48000 2"

subsection \<open>Predicates of the statements\<close>

text \<open>
  What one round of the loop of lines 393 to 408 does with the pair \<open>left\<close>,
  \<open>right\<close> at index \<open>i\<close>, when it raises nothing and appends \<open>l\<close> and \<open>r\<close>.
\<close>

definition pair_cropped ::
    "(AudioSegment \<Rightarrow> nat list) \<Rightarrow> nat \<Rightarrow> AudioSegment \<Rightarrow> AudioSegment
       \<Rightarrow> AudioSegment \<Rightarrow> AudioSegment \<Rightarrow> bool" where
  "pair_cropped find_peaks i left right l r =
     (\<exists>l1 r1 speaker.
        crop_ir_tail left = Inr l1 \<and> crop_ir_tail right = Inr r1 \<and>
        getitem CHANNELS (i div 2) = Inr speaker \<and>
        crop_ir_head find_peaks l1 r1 speaker = Inr (l, r))"

definition pair_bypassed :: "AudioSegment \<Rightarrow> AudioSegment \<Rightarrow> AudioSegment \<Rightarrow> AudioSegment \<Rightarrow> bool" where
  "pair_bypassed left right l r =
     (getitem_slice left None (Some 1) = Inr l \<and> getitem_slice right None (Some 1) = Inr r)"

definition pair_ok ::
    "(AudioSegment \<Rightarrow> nat list) \<Rightarrow> nat \<Rightarrow> AudioSegment \<Rightarrow> AudioSegment
       \<Rightarrow> AudioSegment \<Rightarrow> AudioSegment \<Rightarrow> bool" where
  "pair_ok find_peaks i left right l r =
     (if 2 < rms left \<and> 2 < rms right then pair_cropped find_peaks i left right l r
      else pair_bypassed left right l r)"


text \<open>
  The noise floor in the words of the specification, for comparison with
  \<open>noise_floor\<close>: the larger of ten times the mean RMS of the last ten windows
  and \<open>10\<^sup>-\<^sup>6\<close>.
\<close>

definition spec_noise_floor :: "real option list \<Rightarrow> real option" where
  "spec_noise_floor rms_list =
     (case np_mean_nan (py_slice rms_list (- 10) (int (length rms_list))) of
        None \<Rightarrow> None
      | Some m \<Rightarrow> Some (max (10 * m) (1 / 10 ^ 6)))"

text \<open>
  Buffers of 16-bit samples at 48 kHz, 48 samples to the millisecond: 12 ms at
  negative full scale; 12 ms with only the first millisecond loud; 12 ms with only
  the eleventh millisecond loud; 14 ms with only the third millisecond loud.
\<close>

definition loud576 :: AudioSegment where
  "loud576 = mono_segment (replicate 576 (- 32768)) 48000 2"


definition late_burst :: AudioSegment where
  "late_burst =
     mono_segment (concat (replicate 10 (replicate 48 0) @ [replicate 48 (- 32768)]) @ replicate 48 0)
       48000 2"


text \<open>
  What \<^verbatim>\<open>seg[a:e]\<close> holds for a mono segment and frame indices \<open>a\<close>, \<open>e\<close> that
  are not negative: the frames read, filled up with silence to \<open>e - a\<close> frames
  unless none was read.
\<close>

definition sliced :: "int list \<Rightarrow> nat \<Rightarrow> nat \<Rightarrow> int list" where
  "sliced xs a e =
     (let data = take (e - a) (drop a xs)
      in if data = [] then [] else data @ replicate (e - a - length data) 0)"

text \<open>
  \<open>ys\<close> is \<open>xs\<close> without its first \<open>s\<close> samples, up to the last \<open>margin\<close> samples
  of \<open>xs\<close>: every sample of \<open>xs\<close> at an index \<open>s + k\<close> that lies at least \<open>margin\<close>
  before the end of \<open>xs\<close> is sample \<open>k\<close> of \<open>ys\<close>.
\<close>

definition keeps :: "real \<Rightarrow> int list \<Rightarrow> int list \<Rightarrow> nat \<Rightarrow> bool" where
  "keeps margin xs ys s =
     (\<forall>k. real (s + k) + margin \<le> real (length xs) \<longrightarrow> k < length ys \<and> ys ! k = xs ! (s + k))"

text \<open>
  Five milliseconds of 16-bit silence at 48 kHz with one sample of 20000 at index
  \<open>n\<close>, and a peak detector for such buffers, which gives the index of the first
  sample that is not zero.
\<close>

definition impulse :: "nat \<Rightarrow> AudioSegment" where
  "impulse n = mono_segment (replicate n 0 @ 20000 # replicate (239 - n) 0) 48000 2"

definition first_nonzero :: "AudioSegment \<Rightarrow> nat list" where
  "first_nonzero seg = [length (takeWhile (\<lambda>v. v = 0) (hd (tracks seg)))]"

section \<open>Properties\<close>

subsection \<open>Auxiliary facts\<close>

lemma bind_simps:
  "bind (Inl e) f = Inl e" "bind (Inr x) f = f x"
  by (simp_all add: bind_def)

lemma bind_eq_Inr:
  "bind m f = Inr y \<longleftrightarrow> (\<exists>x. m = Inr x \<and> f x = Inr y)"
  by (cases m) (simp_all add: bind_def)

lemma transpose_single: "transpose [xs] = map (\<lambda>x. [x]) xs"
  by (induction xs) simp_all

lemma mono_segment_fields:
  "tracks (mono_segment xs fs w) = [xs]"
  "frame_rate (mono_segment xs fs w) = fs"
  "sample_width (mono_segment xs fs w) = w"
  by (simp_all add: mono_segment_def)

lemma get_array_of_samples_single: "tracks seg = [xs] \<Longrightarrow> get_array_of_samples seg = xs"
  by (simp add: get_array_of_samples_def transpose_single concat_map_singleton)

lemma get_array_of_samples_mono: "get_array_of_samples (mono_segment xs fs w) = xs"
  by (simp add: get_array_of_samples_single mono_segment_fields)

lemma map_result_all_Inr:
  "(\<And>x. x \<in> set xs \<Longrightarrow> f x = Inr (g x)) \<Longrightarrow> map_result f xs = Inr (map g xs)"
  by (induction xs) simp_all

subsection \<open>Rounding, lengths and slices\<close>

lemma py_round_of_int [simp]: "py_round (of_int n) = n"
  by (simp add: py_round_def)

lemma py_round_lower: "x - 1 / 2 \<le> of_int (py_round x)"
  unfolding py_round_def Let_def by (auto; linarith)

lemma py_round_upper: "of_int (py_round x) \<le> x + 1 / 2"
  unfolding py_round_def Let_def by (auto; linarith)

lemma py_round_unique:
  assumes "\<bar>x - of_int n\<bar> < 1 / 2"
  shows "py_round x = n"
proof -
  have "\<bar>of_int (py_round x) - (of_int n :: real)\<bar> < 1"
    using py_round_lower [of x] py_round_upper [of x] assms by linarith
  then have "\<bar>py_round x - n\<bar> < 1"
    by (metis of_int_1 of_int_abs of_int_diff of_int_less_iff)
  then show ?thesis by simp
qed

lemma py_round_nonneg: "0 \<le> x \<Longrightarrow> 0 \<le> py_round x"
  unfolding py_round_def Let_def by (auto simp: zero_le_floor) 

lemma py_int_nonneg: "0 \<le> x \<Longrightarrow> py_int x = \<lfloor>x\<rfloor>"
  by (simp add: py_int_def)

lemma len_ms_nonneg: "0 \<le> len_ms seg"
  by (simp add: len_ms_def py_round_nonneg)

lemma len_ms_whole:
  assumes "0 < frame_rate seg" and "1000 * frames seg = l * frame_rate seg"
  shows "len_ms seg = int l"
proof -
  have "1000 * real (frames seg) = real l * real (frame_rate seg)"
    using assms(2) by (metis of_nat_mult of_nat_numeral)
  then have "1000 * (real (frames seg) / real (frame_rate seg)) = of_int (int l)"
    using assms(1) by (simp add: field_simps)
  then show ?thesis unfolding len_ms_def by (simp only: py_round_of_int)
qed

lemma parse_position_nonneg:
  "0 \<le> v \<Longrightarrow> parse_position seg v = \<lfloor>v * (real (frame_rate seg) / 1000)\<rfloor>"
  by (simp add: parse_position_def frame_count_ms_def py_int_nonneg)

lemma py_slice_nonneg:
  "0 \<le> a \<Longrightarrow> 0 \<le> b \<Longrightarrow> py_slice xs a b = take (nat b - nat a) (drop (nat a) xs)"
  by (auto simp: py_slice_def py_index_def Let_def min_def)


lemma frames_mono [simp]: "frames (mono_segment xs fs w) = length xs"
  by (simp add: mono_segment_def frames_def)

lemma missing_zero_tracks:
  "map (\<lambda>t. if t = [] then t else t @ replicate (nat 0) (0::int)) ts = ts"
  by (induction ts) simp_all

lemma getitem_slice_prefix:
  assumes fs: "0 < frame_rate seg"
    and e0: "0 \<le> e" and el: "e \<le> of_int (len_ms seg)"
    and fit: "\<lfloor>e * (real (frame_rate seg) / 1000)\<rfloor> \<le> int (frames seg)"
  shows "getitem_slice seg None (Some e) =
           Inr (seg\<lparr>tracks := map (take (nat \<lfloor>e * (real (frame_rate seg) / 1000)\<rfloor>)) (tracks seg)\<rparr>)"
proof -
  define E where "E = \<lfloor>e * (real (frame_rate seg) / 1000)\<rfloor>"
  have l0: "(0::real) \<le> of_int (len_ms seg)" by (simp add: len_ms_nonneg)
  have E0: "0 \<le> E" using e0 fs by (simp add: E_def)
  have EF: "E \<le> int (frames seg)" using fit by (simp add: E_def)
  have s: "parse_position seg (min 0 (of_int (len_ms seg))) = 0"
    using l0 by (simp add: min_def parse_position_nonneg)
  have e: "parse_position seg (min e (of_int (len_ms seg))) = E"
    using el e0 by (simp add: min_def parse_position_nonneg E_def)
  have data: "map (\<lambda>t. py_slice t 0 E) (tracks seg) = map (take (nat E)) (tracks seg)"
    using E0 by (simp add: py_slice_nonneg)
  have miss: "E - 0 - (case map (take (nat E)) (tracks seg) of [] \<Rightarrow> 0 | t # _ \<Rightarrow> int (length t)) = 0"
  proof (cases "tracks seg")
    case Nil
    then have "frames seg = 0" by (simp add: frames_def)
    with EF E0 have "E = 0" by simp
    with Nil show ?thesis by simp
  next
    case (Cons t ts)
    then have "length t = frames seg" by (simp add: frames_def)
    with EF E0 Cons show ?thesis by simp
  qed
  have "getitem_slice seg None (Some e) = Inr (seg\<lparr>tracks := map (take (nat E)) (tracks seg)\<rparr>)"
    unfolding getitem_slice_def Let_def option.case s e data miss
    by (simp add: missing_zero_tracks)
  then show ?thesis by (simp add: E_def)
qed

lemma getitem_slice_prefix_mono:
  assumes "0 < fs" "0 \<le> e" "e \<le> of_int (len_ms (mono_segment xs fs w))"
    and "\<lfloor>e * (real fs / 1000)\<rfloor> \<le> int (length xs)"
  shows "getitem_slice (mono_segment xs fs w) None (Some e) =
           Inr (mono_segment (take (nat \<lfloor>e * (real fs / 1000)\<rfloor>) xs) fs w)"
  using getitem_slice_prefix [of "mono_segment xs fs w" e] assms
  by (simp add: mono_segment_fields)

lemma len_ms_mono_whole:
  assumes "0 < fs" and "1000 * length xs = l * fs"
  shows "len_ms (mono_segment xs fs w) = int l"
  using len_ms_whole [of "mono_segment xs fs w" l] assms by (simp add: mono_segment_fields)

subsection \<open>Packing\<close>

lemma zero_pad_fits:
  "length (get_array_of_samples seg) \<le> m \<Longrightarrow>
   zero_pad seg m fs =
     Inr (mono_segment
            (get_array_of_samples seg @ replicate (m - length (get_array_of_samples seg)) 0)
            fs (sample_width seg))"
  by (simp add: zero_pad_def Let_def nat_diff_distrib')

lemma zero_pad_to_longest_eq:
  assumes "cropped \<noteq> []"
  shows "zero_pad_to_longest cropped fs =
     Inr (map (\<lambda>r. mono_segment
                 (get_array_of_samples r @
                    replicate (Max (set (map (\<lambda>ir. length (get_array_of_samples ir)) cropped))
                                 - length (get_array_of_samples r)) 0)
                 fs (sample_width r)) cropped)"
proof -
  let ?m = "Max (set (map (\<lambda>ir. length (get_array_of_samples ir)) cropped))"
  have le: "length (get_array_of_samples r) \<le> ?m" if "r \<in> set cropped" for r
    using that by (intro Max_ge) auto
  show ?thesis
    using assms unfolding zero_pad_to_longest_def
    by (simp add: map_result_all_Inr [where g = "\<lambda>r. mono_segment
          (get_array_of_samples r @ replicate (?m - length (get_array_of_samples r)) 0)
          fs (sample_width r)"] zero_pad_fits le)
qed

text \<open>
  Claim C9. The packing step of main never raises on a non-empty list of cropped
  responses (14 of them in a run of main), and for every buffer \<open>i\<close>: the padded
  buffer has the length of the longest buffer before padding, it starts with the
  samples the buffer had, everything after them is the integer 0, and it keeps the
  sample width of the buffer.
\<close>

theorem zero_pad_to_longest_invariant:
  assumes "cropped \<noteq> []"
  shows "\<exists>padded. zero_pad_to_longest cropped fs = Inr padded \<and>
     length padded = length cropped \<and>
     (\<forall>i < length cropped.
        length (get_array_of_samples (padded ! i)) =
          Max (set (map (\<lambda>ir. length (get_array_of_samples ir)) cropped)) \<and>
        take (length (get_array_of_samples (cropped ! i))) (get_array_of_samples (padded ! i)) =
          get_array_of_samples (cropped ! i) \<and>
        drop (length (get_array_of_samples (cropped ! i))) (get_array_of_samples (padded ! i)) =
          replicate (Max (set (map (\<lambda>ir. length (get_array_of_samples ir)) cropped))
                       - length (get_array_of_samples (cropped ! i))) 0 \<and>
        sample_width (padded ! i) = sample_width (cropped ! i) \<and>
        frame_rate (padded ! i) = fs)"
proof -
  let ?m = "Max (set (map (\<lambda>ir. length (get_array_of_samples ir)) cropped))"
  have le: "length (get_array_of_samples (cropped ! i)) \<le> ?m" if "i < length cropped" for i
    using that by (intro Max_ge) auto
  show ?thesis
    unfolding zero_pad_to_longest_eq [OF assms]
    by (intro exI conjI, rule refl)
       (auto simp: get_array_of_samples_mono le mono_segment_fields)
qed

lemma fourteen_max: "Max (set (map (\<lambda>ir. length (get_array_of_samples ir)) fourteen)) = 5"
  by (simp add: fourteen_def get_array_of_samples_mono)

theorem zero_pad_to_longest_invariant_witness:
  "fourteen \<noteq> [] \<and> length fourteen = 14 \<and>
   (\<exists>padded. zero_pad_to_longest fourteen 48000 = Inr padded \<and> length padded = 14 \<and>
      (\<forall>i < 14. length (get_array_of_samples (padded ! i)) = 5 \<and>
                 frame_rate (padded ! i) = 48000))"
proof -
  have ne: "fourteen \<noteq> []" and len: "length fourteen = 14"
    by (simp_all add: fourteen_def)
  have "\<exists>padded. zero_pad_to_longest fourteen 48000 = Inr padded \<and> length padded = 14 \<and>
      (\<forall>i < 14. length (get_array_of_samples (padded ! i)) = 5 \<and>
                 frame_rate (padded ! i) = 48000)"
    using zero_pad_to_longest_invariant [OF ne, of 48000]
    unfolding fourteen_max len by blast
  with ne len show ?thesis by simp
qed

subsection \<open>Energy threshold and a silent response file\<close>

lemma sqrt_nine: "sqrt 9 = 3"
  by (rule real_sqrt_unique) simp_all

lemma rms_gt_2:
  "2 < rms seg \<longleftrightarrow>
     get_array_of_samples seg \<noteq> [] \<and>
     9 * int (length (get_array_of_samples seg))
       \<le> sum_list (map (\<lambda>x. x * x) (get_array_of_samples seg))"
proof (cases "get_array_of_samples seg = []")
  case True
  then show ?thesis by (simp add: rms_def)
next
  case False
  define n where "n = length (get_array_of_samples seg)"
  define q where "q = sum_list (map (\<lambda>x. x * x) (get_array_of_samples seg))"
  have n: "0 < n" using False by (simp add: n_def)
  have "2 < rms seg \<longleftrightarrow> 3 \<le> \<lfloor>sqrt (real_of_int q / real n)\<rfloor>"
    using False by (simp add: rms_def q_def n_def Let_def)
  also have "\<dots> \<longleftrightarrow> sqrt 9 \<le> sqrt (real_of_int q / real n)"
    by (simp add: le_floor_iff sqrt_nine)
  also have "\<dots> \<longleftrightarrow> 9 \<le> real_of_int q / real n"
    by (rule real_sqrt_le_iff)
  also have "\<dots> \<longleftrightarrow> 9 * real n \<le> real_of_int q"
    using n by (simp add: pos_le_divide_eq)
  also have "\<dots> \<longleftrightarrow> 9 * int n \<le> q"
    by (metis (mono_tags) of_int_le_iff of_int_mult of_int_numeral of_int_of_nat_eq)
  finally show ?thesis using False by (simp add: n_def q_def)
qed

lemma split_to_mono_eq:
  "split_to_mono seg =
     map (\<lambda>t. mono_segment t (frame_rate seg) (sample_width seg)) (tracks seg)"
  by (simp add: split_to_mono_def mono_segment_def)

lemma rms_silent: "\<not> 2 < rms (mono_segment (replicate n 0) fs w)"
  by (auto simp add: rms_gt_2 get_array_of_samples_mono sum_list_replicate)

lemma len_ms_silent96: "len_ms (mono_segment (replicate 96 0) 48000 2) = 2"
  by (rule len_ms_mono_whole [where l = 2, simplified]) simp_all

lemma first_ms_silent96:
  "getitem_slice (mono_segment (replicate 96 0) 48000 2) None (Some 1) =
     Inr (mono_segment (replicate 48 0) 48000 2)"
  by (simp add: getitem_slice_prefix_mono len_ms_silent96)

lemma crop_responses_silent:
  "crop_responses fp (replicate (2 * k) (mono_segment (replicate 96 0) 48000 2)) i =
     Inr (replicate (2 * k) (mono_segment (replicate 48 0) 48000 2))"
  by (induction k arbitrary: i) (simp_all add: rms_silent first_ms_silent96 bind_simps)

lemma from_mono_same:
  assumes "0 < k"
  shows "from_mono_audiosegments (replicate k (mono_segment xs fs w)) =
     Inr \<lparr>tracks = replicate k xs, frame_rate = fs, sample_width = w\<rparr>"
proof -
  obtain j where k: "k = Suc j" using assms by (cases k) auto
  have s1: "set (map sample_width (replicate k (mono_segment xs fs w))) = {w}"
    using assms by (auto simp: mono_segment_fields)
  have sw: "map (set_sample_width w) (replicate k (mono_segment xs fs w)) =
      replicate k (mono_segment xs fs w)"
    by (simp add: set_sample_width_def mono_segment_fields)
  have s2: "set (map frames (replicate k (mono_segment xs fs w))) = {length xs}"
    using assms by auto
  have s3: "set (replicate k (mono_segment xs fs w)) = {mono_segment xs fs w}"
    using assms by auto
  show ?thesis
    unfolding from_mono_audiosegments_def Let_def s1 Max_singleton sw s2 s3
    by (simp add: k mono_segment_fields channels_def get_array_of_samples_mono)
qed

lemma split_to_mono_silent14: "split_to_mono silent14 = replicate (2 * 7) (mono_segment (replicate 96 0) 48000 2)"
    by (simp add: split_to_mono_eq silent14_def)

lemma zero_pad_placeholders: "zero_pad_to_longest (replicate 14 (mono_segment (replicate 48 0) 48000 2)) 48000 =
      Inr (replicate 14 (mono_segment (replicate 48 0) 48000 2))"
    by (subst zero_pad_to_longest_eq) (simp_all add: get_array_of_samples_mono mono_segment_fields)


lemma index_of_hesuvi:
  "map (index_of IR_ORDER) hesuvi_order = [0, 1, 10, 11, 6, 7, 4, 3, 2, 13, 12, 9, 8, 5]"
  by (simp add: hesuvi_order_def IR_ORDER_def CHANNELS_def index_of_def)

lemma map_result_getitem:
  "(\<And>ch. ch \<in> set chs \<Longrightarrow> index_of names ch < length xs) \<Longrightarrow>
   map_result (\<lambda>ch. getitem xs (index_of names ch)) chs =
     Inr (map (\<lambda>ch. xs ! index_of names ch) chs)"
  by (rule map_result_all_Inr) (simp add: getitem_def)


lemma map_result_comp: "map_result (\<lambda>x. f (g x)) xs = map_result f (map g xs)"
  by (induction xs) (simp_all split: sum.splits)

lemma reorder_same:
  "map_result (\<lambda>ch. getitem (replicate 14 x) (index_of IR_ORDER ch)) hesuvi_order =
     Inr (replicate 14 x)"
  unfolding map_result_comp [of "getitem (replicate 14 x)" "index_of IR_ORDER"] index_of_hesuvi
  by (simp add: getitem_def) (simp add: numeral_eq_Suc)

lemma postprocess_silent14:
  "postprocess_stage ext (Some silent14) = Inr (placeholders14, placeholders14)"
proof -
  have cr: "crop_responses (ext_find_peaks ext) (split_to_mono silent14) 0 =
      Inr (replicate 14 (mono_segment (replicate 48 0) 48000 2))"
    unfolding split_to_mono_silent14 crop_responses_silent by simp
  have fr: "frame_rate silent14 = 48000" by (simp add: silent14_def)
  have fm: "from_mono_audiosegments (replicate 14 (mono_segment (replicate 48 0) 48000 2)) =
      Inr placeholders14"
    by (simp add: from_mono_same placeholders14_def)
  show ?thesis
    unfolding postprocess_stage_def option.case cr bind_simps fr zero_pad_placeholders reorder_same fm
    by simp
qed

subsection \<open>Stages of main\<close>

lemma read_file_unwanted: "read_file disk False path = Inr None"
  by (simp add: read_file_def split: option.splits)

lemma read_file_wanted:
  "read_file disk True (Some p) = bind (from_wav disk p) (\<lambda>seg. Inr (Some seg))"
  by (simp add: read_file_def)

text \<open>
  Claim C3 (fails on the code). Deconvolution asked for without pre-processing never
  gets to work on the recording the user gave: once the parameter checks pass and
  the files are read, main reads the local \<open>preprocessed\<close>, which only the
  pre-processing block assigns, and raises an UnboundLocalError. The recording file
  is not even opened (it is read for pre-processing only).
\<close>

theorem main_deconvolve_needs_preprocess:
  assumes "arg_deconvolve a" and "\<not> arg_preprocess a"
    and "parameter_checks a = Inr ()"
    and "read_file disk True (arg_test a) = Inr test"
    and "read_file disk (arg_postprocess a) (arg_responses a) = Inr responses"
  shows "main ext disk a = Inl (UnboundLocalError ''preprocessed'')"
  using assms
  by (simp add: main_def bind_simps read_file_unwanted deconvolve_stage_def)

theorem main_deconvolve_needs_preprocess_witness:
  "arg_deconvolve args_deconvolve \<and> \<not> arg_preprocess args_deconvolve \<and>
   parameter_checks args_deconvolve = Inr () \<and>
   main ext0 disk0 args_deconvolve = Inl (UnboundLocalError ''preprocessed'')"
proof -
  have a: "arg_deconvolve args_deconvolve" "\<not> arg_preprocess args_deconvolve"
    by (simp_all add: args_deconvolve_def)
  have pc: "parameter_checks args_deconvolve = Inr ()"
    by (simp add: parameter_checks_def args_deconvolve_def falsy_str_def)
  have t: "read_file disk0 True (arg_test args_deconvolve) = Inr (Some test0)"
    by (simp add: read_file_def from_wav_def disk0_def args_deconvolve_def bind_simps)
  have r: "read_file disk0 (arg_postprocess args_deconvolve) (arg_responses args_deconvolve)
             = Inr None"
    by (simp add: read_file_def args_deconvolve_def)
  show ?thesis
    using main_deconvolve_needs_preprocess [OF a pc t r, of ext0] a pc by simp
qed

text \<open>
  Claim C10 (amended). When only post-processing is asked for, with a responses
  file, main raises the TypeError about \<open>speakers\<close> before it reads any file if
  \<open>speakers\<close> is None or empty, although post-processing never uses it. With any
  non-empty \<open>speakers\<close> main reads the responses file and goes straight to
  post-processing; what it returns is what post-processing returns, an exception of
  cropping included, and no other file is written.
\<close>

theorem main_postprocess_only:
  assumes "\<not> arg_measure a" and "\<not> arg_preprocess a" and "\<not> arg_deconvolve a"
    and "arg_postprocess a" and "\<not> arg_equalize a"
    and "arg_responses a = Some p" and "p \<noteq> []"
  shows "main ext disk a =
     (if falsy_list (arg_speakers a)
      then Inl (TypeError ''Parameter speakers is required for pre-processing.'')
      else bind (from_wav disk p) (\<lambda>responses.
           bind (postprocess_stage ext (Some responses)) (\<lambda>(s, h).
             Inr \<lparr>preprocessed_wav = None, tests_wav = None, responses_wav = None,
                  hrir_wav = Some s, hesuvi_wav = Some h, headphones_csv = None\<rparr>)))"
proof (cases "falsy_list (arg_speakers a)")
  case True
  with assms show ?thesis
    by (simp add: main_def parameter_checks_def bind_simps)
next
  case False
  with assms have pc: "parameter_checks a = Inr ()"
    by (simp add: parameter_checks_def falsy_str_def)
  show ?thesis
  proof (cases "from_wav disk p")
    case (Inl e)
    with assms False pc show ?thesis
      by (simp add: main_def bind_simps read_file_unwanted read_file_wanted)
  next
    case (Inr r)
    with assms False pc show ?thesis
      by (cases "postprocess_stage ext (Some r)")
         (auto simp add: main_def bind_simps read_file_unwanted read_file_wanted)
  qed
qed

theorem main_postprocess_only_witness:
  "main ext0 disk0 (args_postprocess (Some [''FL'', ''FR''])) =
     Inr \<lparr>preprocessed_wav = None, tests_wav = None, responses_wav = None,
          hrir_wav = Some placeholders14, hesuvi_wav = Some placeholders14,
          headphones_csv = None\<rparr>"
  using main_postprocess_only [of "args_postprocess (Some [''FL'', ''FR''])"
      "''responses.wav''" ext0 disk0]
  by (simp add: args_postprocess_def falsy_list_def from_wav_def disk0_def bind_simps
      postprocess_silent14)

theorem main_postprocess_speakers_counterexample:
  "main ext0 disk0 (args_postprocess None) =
     Inl (TypeError ''Parameter speakers is required for pre-processing.'') \<and>
   postprocess_stage ext0 (disk0 ''responses.wav'') = Inr (placeholders14, placeholders14)"
  by (simp add: main_def parameter_checks_def args_postprocess_def falsy_list_def bind_simps
      disk0_def postprocess_silent14)

subsection \<open>The cropping loop of main\<close>

lemma pair_step:
  "(if 2 < rms left \<and> 2 < rms right
           then bind (crop_ir_tail left) (\<lambda>l.
                bind (crop_ir_tail right) (\<lambda>r.
                bind (getitem CHANNELS (i div 2)) (\<lambda>speaker.
                  crop_ir_head fp l r speaker)))
           else bind (getitem_slice left None (Some 1)) (\<lambda>l.
                bind (getitem_slice right None (Some 1)) (\<lambda>r. Inr (l, r)))) = Inr (l, r)
   \<longleftrightarrow> pair_ok fp i left right l r"
  by (auto simp: pair_ok_def pair_cropped_def pair_bypassed_def bind_eq_Inr)

lemma crop_responses_Cons2:
  "crop_responses fp (left # right # rest) i = Inr cropped \<longleftrightarrow>
     (\<exists>l r c. cropped = l # r # c \<and> pair_ok fp i left right l r \<and>
        crop_responses fp rest (i + 2) = Inr c)"
  unfolding crop_responses.simps bind_eq_Inr pair_step [symmetric]
  by (auto simp: bind_eq_Inr split: prod.splits)

lemma crop_responses_iff:
  "crop_responses fp rs i = Inr cropped \<longleftrightarrow>
     even (length rs) \<and> length cropped = length rs \<and>
     (\<forall>k. 2 * k + 1 < length rs \<longrightarrow>
        pair_ok fp (i + 2 * k) (rs ! (2 * k)) (rs ! (2 * k + 1))
          (cropped ! (2 * k)) (cropped ! (2 * k + 1)))"
proof (induction fp rs i arbitrary: cropped rule: crop_responses.induct)
  case (1 fp i)
  then show ?case by auto
next
  case (2 fp left i)
  then show ?case by simp
next
  case (3 fp left right rest i)
  show ?case
  proof
    assume "crop_responses fp (left # right # rest) i = Inr cropped"
    then obtain l r c where c: "cropped = l # r # c" "pair_ok fp i left right l r"
      "crop_responses fp rest (i + 2) = Inr c"
      unfolding crop_responses_Cons2 by blast
    from c(3) have ih: "even (length rest)" "length c = length rest"
      "\<And>k. 2 * k + 1 < length rest \<Longrightarrow>
        pair_ok fp (i + 2 + 2 * k) (rest ! (2 * k)) (rest ! (2 * k + 1))
          (c ! (2 * k)) (c ! (2 * k + 1))"
      using "3.IH" [of c] by auto
    have "pair_ok fp (i + 2 * k) ((left # right # rest) ! (2 * k))
            ((left # right # rest) ! (2 * k + 1)) (cropped ! (2 * k)) (cropped ! (2 * k + 1))"
      if "2 * k + 1 < length (left # right # rest)" for k
    proof (cases k)
      case 0
      with c show ?thesis by simp
    next
      case (Suc j)
      with that have "2 * j + 1 < length rest" by simp
      from ih(3) [OF this] show ?thesis using Suc c(1) by (simp add: add.commute add.left_commute)
    qed
    with ih c(1) show "even (length (left # right # rest)) \<and>
       length cropped = length (left # right # rest) \<and>
       (\<forall>k. 2 * k + 1 < length (left # right # rest) \<longrightarrow>
          pair_ok fp (i + 2 * k) ((left # right # rest) ! (2 * k))
            ((left # right # rest) ! (2 * k + 1)) (cropped ! (2 * k)) (cropped ! (2 * k + 1)))"
      by simp
  next
    assume r: "even (length (left # right # rest)) \<and>
       length cropped = length (left # right # rest) \<and>
       (\<forall>k. 2 * k + 1 < length (left # right # rest) \<longrightarrow>
          pair_ok fp (i + 2 * k) ((left # right # rest) ! (2 * k))
            ((left # right # rest) ! (2 * k + 1)) (cropped ! (2 * k)) (cropped ! (2 * k + 1)))"
    then obtain l r' c where c: "cropped = l # r' # c"
      by (cases cropped; cases "tl cropped") auto
    from r have p0: "pair_ok fp i left right l r'"
      using c by (auto dest: spec [of _ 0])
    have "pair_ok fp (i + 2 + 2 * k) (rest ! (2 * k)) (rest ! (2 * k + 1))
          (c ! (2 * k)) (c ! (2 * k + 1))" if "2 * k + 1 < length rest" for k
    proof -
      from that have "2 * Suc k + 1 < length (left # right # rest)" by simp
      with r have "pair_ok fp (i + 2 * Suc k) ((left # right # rest) ! (2 * Suc k))
            ((left # right # rest) ! (2 * Suc k + 1)) (cropped ! (2 * Suc k)) (cropped ! (2 * Suc k + 1))"
        by blast
      then show ?thesis using c by (simp add: add.commute add.left_commute)
    qed
    with r c have "crop_responses fp rest (i + 2) = Inr c"
      using "3.IH" [of c] by simp
    with p0 c show "crop_responses fp (left # right # rest) i = Inr cropped"
      unfolding crop_responses_Cons2 by simp
  qed
qed

text \<open>
  Claim C7 (amended). The loop of main returns exactly when the responses come in
  pairs and every pair was handled as follows: when both ears have an RMS level
  above 2, both are tail-cropped and then head-aligned for the speaker of that slot;
  in every other case, so already when one ear only is at or below 2, neither ear
  is cropped and each is replaced by \<^verbatim>\<open>seg[:1]\<close>, its first millisecond.
\<close>

theorem crop_responses_bypass:
  "crop_responses find_peaks responses 0 = Inr cropped \<longleftrightarrow>
     even (length responses) \<and> length cropped = length responses \<and>
     (\<forall>k. 2 * k + 1 < length responses \<longrightarrow>
        (if 2 < rms (responses ! (2 * k)) \<and> 2 < rms (responses ! (2 * k + 1))
         then pair_cropped find_peaks (2 * k) (responses ! (2 * k)) (responses ! (2 * k + 1))
                (cropped ! (2 * k)) (cropped ! (2 * k + 1))
         else pair_bypassed (responses ! (2 * k)) (responses ! (2 * k + 1))
                (cropped ! (2 * k)) (cropped ! (2 * k + 1))))"
  using crop_responses_iff [of find_peaks responses 0 cropped]
  by (simp add: pair_ok_def)

lemma rms_loud96: "2 < rms loud96"
  by (simp add: rms_gt_2 loud96_def get_array_of_samples_mono sum_list_replicate)

lemma len_ms_loud96: "len_ms loud96 = 2"
  unfolding loud96_def by (rule len_ms_mono_whole [where l = 2, simplified]) simp_all

lemma first_ms_loud96:
  "getitem_slice loud96 None (Some 1) = Inr (mono_segment (replicate 48 1000) 48000 2)"
  using len_ms_loud96 by (simp add: loud96_def getitem_slice_prefix_mono)

theorem crop_responses_bypass_witness:
  "crop_responses (ext_find_peaks ext0) [silent96, silent96] 0 =
     Inr [mono_segment (replicate 48 0) 48000 2, mono_segment (replicate 48 0) 48000 2] \<and>
   \<not> 2 < rms silent96 \<and>
   pair_bypassed silent96 silent96
     (mono_segment (replicate 48 0) 48000 2) (mono_segment (replicate 48 0) 48000 2)"
proof -
  have c: "crop_responses (ext_find_peaks ext0) [silent96, silent96] 0 =
     Inr [mono_segment (replicate 48 0) 48000 2, mono_segment (replicate 48 0) 48000 2]"
    using crop_responses_silent [of "ext_find_peaks ext0" 1 0]
    by (simp add: silent96_def numeral_2_eq_2)
  have s: "\<not> 2 < rms silent96" by (simp add: silent96_def rms_silent)
  from crop_responses_bypass [THEN iffD1, OF c] have
    "if 2 < rms ([silent96, silent96] ! (2 * 0)) \<and> 2 < rms ([silent96, silent96] ! (2 * 0 + 1))
     then pair_cropped (ext_find_peaks ext0) (2 * 0) ([silent96, silent96] ! (2 * 0))
            ([silent96, silent96] ! (2 * 0 + 1))
            ([mono_segment (replicate 48 0) 48000 2, mono_segment (replicate 48 0) 48000 2] ! (2 * 0))
            ([mono_segment (replicate 48 0) 48000 2, mono_segment (replicate 48 0) 48000 2] ! (2 * 0 + 1))
     else pair_bypassed ([silent96, silent96] ! (2 * 0)) ([silent96, silent96] ! (2 * 0 + 1))
            ([mono_segment (replicate 48 0) 48000 2, mono_segment (replicate 48 0) 48000 2] ! (2 * 0))
            ([mono_segment (replicate 48 0) 48000 2, mono_segment (replicate 48 0) 48000 2] ! (2 * 0 + 1))"
    by simp
  with s have "pair_bypassed silent96 silent96
     (mono_segment (replicate 48 0) 48000 2) (mono_segment (replicate 48 0) 48000 2)"
    by simp
  with c s show ?thesis by simp
qed

theorem crop_responses_one_loud_ear_counterexample:
  "2 < rms loud96 \<and> \<not> 2 < rms silent96 \<and>
   crop_responses (ext_find_peaks ext0) [loud96, silent96] 0 =
     Inr [mono_segment (replicate 48 1000) 48000 2, mono_segment (replicate 48 0) 48000 2]"
  using first_ms_silent96
  by (simp add: rms_loud96 rms_silent silent96_def first_ms_loud96 bind_simps)

subsection \<open>crop\_ir\_tail: where the buffer is cut\<close>

lemma sliding_rms_mono:
  "sliding_rms (mono_segment xs fs w) =
     map (\<lambda>j. window_rms (array_dtype (mono_segment xs fs w))
                 (py_slice xs (int ((j - 1) * (fs div 1000))) (int (j * (fs div 1000)))))
       [1..<nat (len_ms (mono_segment xs fs w))]"
  by (simp add: sliding_rms_def get_array_of_samples_mono mono_segment_fields Let_def)

lemma length_sliding_rms: "length (sliding_rms seg) = nat (len_ms seg) - 1"
  by (simp add: sliding_rms_def Let_def)

lemma tail_scan_none_above:
  "(\<And>k. 2 \<le> k \<Longrightarrow> k \<le> j \<Longrightarrow> \<not> np_gt (rs ! k) nf) \<Longrightarrow>
   tail_scan rs nf j e = (if 2 \<le> j then 2 else e)"
proof (induction rs nf j e rule: tail_scan.induct)
  case (3 rs nf k e)
  have "\<not> np_gt (rs ! Suc (Suc k)) nf" using "3.prems" [of "Suc (Suc k)"] by simp
  moreover have "tail_scan rs nf (Suc k) (int (Suc (Suc k))) = (if 2 \<le> Suc k then 2 else int (Suc (Suc k)))"
    using "3.IH" "3.prems" calculation by simp
  ultimately show ?case by (cases k) simp_all
qed simp_all


lemma tail_scan_cases:
  "tail_scan rs nf j e = e \<or> (2 \<le> tail_scan rs nf j e \<and> tail_scan rs nf j e \<le> int j)"
proof (induction rs nf j e rule: tail_scan.induct)
  case (3 rs nf k e)
  then show ?case by (cases k) auto
qed simp_all


lemma before_last_ms:
  assumes "0 < frame_rate seg"
  shows "of_int (len_ms seg - 1) * (real (frame_rate seg) / 1000) < real (frames seg)"
proof -
  define x where "x = real (frame_rate seg) / 1000"
  have x: "0 < x" using assms by (simp add: x_def)
  have "of_int (len_ms seg) \<le> 1000 * (real (frames seg) / real (frame_rate seg)) + 1 / 2"
    unfolding len_ms_def by (rule py_round_upper)
  also have "1000 * (real (frames seg) / real (frame_rate seg)) = real (frames seg) / x"
    by (simp add: x_def)
  finally have "of_int (len_ms seg) - 1 \<le> real (frames seg) / x - 1 / 2" by simp
  then have "(of_int (len_ms seg) - 1) * x \<le> (real (frames seg) / x - 1 / 2) * x"
    using x by (simp only: mult_le_cancel_right_pos)
  also have "\<dots> = real (frames seg) - x / 2" using x by (simp add: field_simps)
  also have "\<dots> < real (frames seg)" using x by simp
  finally show ?thesis by (simp add: x_def)
qed

lemma getitem_slice_stop_ms:
  assumes fs: "0 < fs" and e: "0 \<le> e" "e \<le> len_ms (mono_segment xs fs w) - 1"
  shows "getitem_slice (mono_segment xs fs w) None (Some (of_int e)) =
           Inr (mono_segment (take (nat \<lfloor>of_int e * (real fs / 1000)\<rfloor>) xs) fs w)"
    and "\<lfloor>of_int e * (real fs / 1000)\<rfloor> < int (length xs)"
proof -
  let ?seg = "mono_segment xs fs w"
  have "of_int e * (real fs / 1000) \<le> of_int (len_ms ?seg - 1) * (real fs / 1000)"
    using e fs by (intro mult_right_mono) simp_all
  also have "\<dots> < real (length xs)"
    using before_last_ms [of ?seg] fs by (simp add: mono_segment_fields)
  finally have lt: "of_int e * (real fs / 1000) < real (length xs)" .
  then show fl: "\<lfloor>of_int e * (real fs / 1000)\<rfloor> < int (length xs)"
    by (simp add: floor_less_iff)
  show "getitem_slice ?seg None (Some (of_int e)) =
           Inr (mono_segment (take (nat \<lfloor>of_int e * (real fs / 1000)\<rfloor>) xs) fs w)"
    using fs e fl by (intro getitem_slice_prefix_mono) simp_all
qed

lemma getitem_slice_take:
  assumes s: "parse_position seg (min (case start of None \<Rightarrow> 0 | Some v \<Rightarrow> v)
                                      (of_int (len_ms seg))) = 0"
    and e: "parse_position seg (min (case stop of None \<Rightarrow> of_int (len_ms seg) | Some v \<Rightarrow> v)
                                    (of_int (len_ms seg))) = E"
    and E0: "0 \<le> E" and EF: "E \<le> int (frames seg)"
  shows "getitem_slice seg start stop = Inr (seg\<lparr>tracks := map (take (nat E)) (tracks seg)\<rparr>)"
proof -
  have data: "map (\<lambda>t. py_slice t 0 E) (tracks seg) = map (take (nat E)) (tracks seg)"
    using E0 by (simp add: py_slice_nonneg)
  have miss: "E - 0 - (case map (take (nat E)) (tracks seg) of [] \<Rightarrow> 0 | t # _ \<Rightarrow> int (length t)) = 0"
  proof (cases "tracks seg")
    case Nil
    then have "frames seg = 0" by (simp add: frames_def)
    with EF E0 have "E = 0" by simp
    with Nil show ?thesis by simp
  next
    case (Cons t ts)
    then have "length t = frames seg" by (simp add: frames_def)
    with EF E0 Cons show ?thesis by simp
  qed
  show ?thesis
    unfolding getitem_slice_def Let_def s e data miss
    by (simp add: missing_zero_tracks)
qed

lemma getitem_slice_drop_last_ms:
  assumes fs: "0 < fs" and l: "1 \<le> len_ms (mono_segment xs fs w)"
  shows "getitem_slice (mono_segment xs fs w) None (Some (- 1)) =
           Inr (mono_segment
                  (take (nat \<lfloor>of_int (len_ms (mono_segment xs fs w) - 1) * (real fs / 1000)\<rfloor>) xs)
                  fs w)"
proof -
  let ?seg = "mono_segment xs fs w"
  define E where "E = \<lfloor>of_int (len_ms ?seg - 1) * (real fs / 1000)\<rfloor>"
  have l0: "(0::real) \<le> of_int (len_ms ?seg)" by (simp add: len_ms_nonneg)
  have E0: "0 \<le> E" using l fs by (simp add: E_def)
  have EF: "E \<le> int (frames ?seg)"
    using getitem_slice_stop_ms(2) [OF fs, of "len_ms ?seg - 1" xs w] l by (simp add: E_def)
  have s: "parse_position ?seg (min (case None of None \<Rightarrow> 0 | Some v \<Rightarrow> v)
             (of_int (len_ms ?seg))) = 0"
    using l0 by (simp add: min_def parse_position_nonneg)
  have nn: "0 \<le> of_int (len_ms ?seg - 1) * (real fs / 1000)" using l fs by simp
  have "parse_position ?seg (- 1) = py_int (of_int (len_ms ?seg - 1) * (real fs / 1000))"
    by (simp add: parse_position_def frame_count_ms_def mono_segment_fields)
  also have "\<dots> = E" unfolding E_def using nn by (rule py_int_nonneg)
  finally have "parse_position ?seg (- 1) = E" .
  then have e: "parse_position ?seg (min (case Some (- 1) of None \<Rightarrow> of_int (len_ms ?seg) | Some v \<Rightarrow> v)
             (of_int (len_ms ?seg))) = E"
    using l0 by simp
  have "getitem_slice ?seg None (Some (- 1)) =
          Inr (?seg\<lparr>tracks := map (take (nat E)) (tracks ?seg)\<rparr>)"
    using s e E0 EF by (rule getitem_slice_take)
  then show ?thesis by (simp add: E_def mono_segment_def)
qed


lemma getitem_slice_no_missing:
  assumes s: "parse_position seg (min (case start of None \<Rightarrow> 0 | Some v \<Rightarrow> v)
                                      (of_int (len_ms seg))) = 0"
    and e: "parse_position seg (min (case stop of None \<Rightarrow> of_int (len_ms seg) | Some v \<Rightarrow> v)
                                    (of_int (len_ms seg))) = E"
    and data: "map (\<lambda>t. py_slice t 0 E) (tracks seg) = ts"
    and miss: "E \<le> (case ts of [] \<Rightarrow> 0 | t # _ \<Rightarrow> int (length t))"
  shows "getitem_slice seg start stop = Inr (seg\<lparr>tracks := ts\<rparr>)"
proof -
  define d where "d = E - 0 - (case ts of [] \<Rightarrow> 0 | t # _ \<Rightarrow> int (length t))"
  have d: "d \<le> 0" using miss by (simp add: d_def)
  have "0 \<le> frame_count_ms seg 2" by (simp add: frame_count_ms_def)
  moreover have "real_of_int d \<le> 0" using d by (simp only: of_int_le_0_iff)
  ultimately have n2: "\<not> (d \<noteq> 0 \<and> frame_count_ms seg 2 < of_int d)" by linarith
  have nat0: "nat d = 0" using d by simp
  have same: "map (\<lambda>t. if t = [] then t else t @ replicate 0 (0::int)) ts = ts"
    by (induction ts) simp_all
  have tr: "map (\<lambda>t. if t = [] then t else t @ replicate (nat d) (0::int)) ts = ts"
    by (simp only: nat0 same)
  show ?thesis
    unfolding getitem_slice_def Let_def s e data d_def [symmetric] tr
    using n2 by simp
qed

lemma getitem_slice_neg_stop_short:
  assumes fs: "0 < fs" and l: "len_ms (mono_segment xs fs w) = 0"
  shows "\<exists>m. getitem_slice (mono_segment xs fs w) None (Some (- 1)) =
               Inr (mono_segment (take m xs) fs w) \<and> (xs \<noteq> [] \<longrightarrow> m < length xs)"
proof -
  let ?seg = "mono_segment xs fs w"
  define E where "E = \<lceil>- (real fs / 1000)\<rceil>"
  define m where "m = py_index (length xs) E"
  have E0: "E \<le> 0" using fs by (simp add: E_def ceiling_le_iff)
  have s: "parse_position ?seg (min (case None of None \<Rightarrow> 0 | Some v \<Rightarrow> v)
             (of_int (len_ms ?seg))) = 0"
    by (simp add: l parse_position_nonneg)
  have e: "parse_position ?seg (min (case Some (- 1) of None \<Rightarrow> of_int (len_ms ?seg) | Some v \<Rightarrow> v)
             (of_int (len_ms ?seg))) = E"
    using fs by (simp add: l parse_position_def frame_count_ms_def mono_segment_fields
        py_int_def E_def)
  have data: "map (\<lambda>t. py_slice t 0 E) (tracks ?seg) = [take m xs]"
    by (simp add: py_slice_def py_index_def m_def Let_def mono_segment_fields)
  have "0 < length xs \<Longrightarrow> E < 0 \<Longrightarrow> nat (int (length xs) + E) < length xs"
    by arith
  then have mm: "xs \<noteq> [] \<longrightarrow> m < length xs"
    using E0 by (auto simp: m_def py_index_def)
  have miss: "E \<le> (case [take m xs] of [] \<Rightarrow> 0 | t # _ \<Rightarrow> int (length t))"
    using E0 by simp
  have "getitem_slice ?seg None (Some (- 1)) = Inr (?seg\<lparr>tracks := [take m xs]\<rparr>)"
    using s e data miss by (rule getitem_slice_no_missing)
  then have "getitem_slice ?seg None (Some (- 1)) = Inr (mono_segment (take m xs) fs w)"
    by (simp add: mono_segment_def)
  with mm show ?thesis by blast
qed

lemma crop_ir_tail_end:
  "crop_ir_tail seg =
     getitem_slice seg None
       (Some (of_int (tail_scan (sliding_rms seg) (noise_floor (sliding_rms seg))
                        (length (sliding_rms seg) - 1) (- 1))))"
  by (simp add: crop_ir_tail_def Let_def)

lemma crop_ir_tail_by_end:
  assumes fs: "0 < fs"
    and e: "tail_scan (sliding_rms (mono_segment xs fs w))
              (noise_floor (sliding_rms (mono_segment xs fs w)))
              (length (sliding_rms (mono_segment xs fs w)) - 1) (- 1) = e"
    and l: "1 \<le> len_ms (mono_segment xs fs w)"
  shows "crop_ir_tail (mono_segment xs fs w) =
     Inr (mono_segment
            (take (nat \<lfloor>of_int (if e = - 1 then len_ms (mono_segment xs fs w) - 1 else e)
                          * (real fs / 1000)\<rfloor>) xs) fs w)"
proof -
  let ?seg = "mono_segment xs fs w"
  from tail_scan_cases [of "sliding_rms ?seg" "noise_floor (sliding_rms ?seg)"
      "length (sliding_rms ?seg) - 1" "- 1"]
  have "e = - 1 \<or> (2 \<le> e \<and> e \<le> int (length (sliding_rms ?seg) - 1))"
    unfolding e .
  then show ?thesis
  proof
    assume "e = - 1"
    then show ?thesis
      unfolding crop_ir_tail_end e using getitem_slice_drop_last_ms [OF fs l] by simp
  next
    assume r: "2 \<le> e \<and> e \<le> int (length (sliding_rms ?seg) - 1)"
    then have "e \<le> len_ms ?seg - 1" unfolding length_sliding_rms by arith
    with r show ?thesis
      unfolding crop_ir_tail_end e using getitem_slice_stop_ms(1) [OF fs, of e xs w] by simp
  qed
qed

lemma crop_ir_tail_prefix:
  assumes fs: "0 < fs"
  shows "\<exists>m. crop_ir_tail (mono_segment xs fs w) = Inr (mono_segment (take m xs) fs w) \<and>
             (xs \<noteq> [] \<longrightarrow> m < length xs)"
proof (cases "1 \<le> len_ms (mono_segment xs fs w)")
  case True
  let ?seg = "mono_segment xs fs w"
  note l1 = True
  define e where "e = tail_scan (sliding_rms ?seg) (noise_floor (sliding_rms ?seg))
              (length (sliding_rms ?seg) - 1) (- 1)"
  define e' where "e' = (if e = - 1 then len_ms ?seg - 1 else e)"
  from tail_scan_cases [of "sliding_rms ?seg" "noise_floor (sliding_rms ?seg)"
      "length (sliding_rms ?seg) - 1" "- 1"]
  have "e = - 1 \<or> (2 \<le> e \<and> e \<le> int (length (sliding_rms ?seg) - 1))"
    unfolding e_def .
  then have e': "0 \<le> e'" "e' \<le> len_ms ?seg - 1"
  proof -
    assume d: "e = - 1 \<or> (2 \<le> e \<and> e \<le> int (length (sliding_rms ?seg) - 1))"
    show "0 \<le> e'"
      using d True by (auto simp: e'_def)
    show "e' \<le> len_ms ?seg - 1"
    proof (cases "e = - 1")
      case True
      then show ?thesis by (simp add: e'_def)
    next
      case False
      with d have "e \<le> int (nat (len_ms ?seg) - 1 - 1)" by (simp add: length_sliding_rms)
      also have "\<dots> \<le> len_ms ?seg - 1" using l1 by arith
      finally show ?thesis using False by (simp add: e'_def)
    qed
  qed
  have "crop_ir_tail ?seg = Inr (mono_segment (take (nat \<lfloor>of_int e' * (real fs / 1000)\<rfloor>) xs) fs w)"
    using crop_ir_tail_by_end [OF fs e_def [symmetric] True] by (simp add: e'_def)
  moreover have "nat \<lfloor>of_int e' * (real fs / 1000)\<rfloor> < length xs"
    using getitem_slice_stop_ms(2) [OF fs e'] e'(1) fs by (simp add: nat_less_iff)
  ultimately show ?thesis by blast
next
  case False
  let ?seg = "mono_segment xs fs w"
  from False have l: "len_ms ?seg = 0" using len_ms_nonneg [of ?seg] by simp
  then have "sliding_rms ?seg = []" by (simp add: sliding_rms_def)
  then have "crop_ir_tail ?seg = getitem_slice ?seg None (Some (- 1))"
    by (simp add: crop_ir_tail_end)
  with getitem_slice_neg_stop_short [OF fs l] show ?thesis by simp
qed

lemma window_rms_const:
  "window_rms Int16 (replicate n c) =
     (if n = 0 then None else Some (\<bar>real_of_int c\<bar> / 2 ^ 15))"
proof (cases "n = 0")
  case True
  then show ?thesis by (simp add: window_rms_def to_float_def np_mean_def)
next
  case False
  have "sqrt (real_of_int c / 2 ^ 15 * (real_of_int c / 2 ^ 15)) = \<bar>real_of_int c / 2 ^ 15\<bar>"
    by (rule real_sqrt_abs2)
  then show ?thesis
    using False
    by (simp add: window_rms_def to_float_def np_mean_def Let_def sum_list_replicate abs_divide)
qed

lemma py_slice_replicate:
  "py_slice (replicate n c) (int a) (int b) = replicate (min b n - min a n) c"
  by (simp add: py_slice_nonneg min_def)

lemma map_upt_const:
  "(\<And>j. a \<le> j \<Longrightarrow> j < b \<Longrightarrow> f j = v) \<Longrightarrow> map f [a..<b] = replicate (b - a) v"
  by (induction b) (auto simp: replicate_append_same Suc_diff_le)

lemma py_slice_nat: "py_slice xs (int a) (int b) = take (b - a) (drop a xs)"
  by (auto simp: py_slice_def py_index_def Let_def min_def)

lemma window_of_concat:
  assumes "list_all (\<lambda>w. length w = n) ws" and "k < length ws"
  shows "take n (drop (k * n) (concat ws @ rest)) = ws ! k"
  using assms
proof (induction ws arbitrary: k)
  case Nil
  then show ?case by simp
next
  case (Cons w ws)
  show ?case
  proof (cases k)
    case 0
    with Cons.prems show ?thesis by simp
  next
    case (Suc j)
    with Cons.prems have "take n (drop (j * n) (concat ws @ rest)) = ws ! j"
      by (intro Cons.IH) simp_all
    with Suc Cons.prems show ?thesis by simp
  qed
qed

lemma sliding_rms_windows:
  assumes n: "n = fs div 1000"
    and ws: "list_all (\<lambda>w. length w = n) ws"
    and l: "len_ms (mono_segment (concat ws @ rest) fs sw) = int (length ws) + 1"
  shows "sliding_rms (mono_segment (concat ws @ rest) fs sw) =
           map (window_rms (array_dtype (mono_segment (concat ws @ rest) fs sw))) ws"
proof -
  let ?xs = "concat ws @ rest"
  let ?dt = "array_dtype (mono_segment ?xs fs sw)"
  have len: "length ?xs \<ge> length ws * n"
    using ws by (induction ws) simp_all
  have "map (\<lambda>j. window_rms ?dt (py_slice ?xs (int ((j - 1) * n)) (int (j * n))))
          [1..<Suc (length ws)] = map (window_rms ?dt) ws"
  proof (rule nth_equalityI)
    show "length (map (\<lambda>j. window_rms ?dt (py_slice ?xs (int ((j - 1) * n)) (int (j * n))))
                   [1..<Suc (length ws)]) = length (map (window_rms ?dt) ws)"
      by (simp del: upt_Suc)
  next
    fix i assume "i < length (map (\<lambda>j. window_rms ?dt
                     (py_slice ?xs (int ((j - 1) * n)) (int (j * n)))) [1..<Suc (length ws)])"
    then have i: "i < length ws" by (simp del: upt_Suc)
    have "py_slice ?xs (int (i * n)) (int (Suc i * n)) = take n (drop (i * n) ?xs)"
      unfolding py_slice_nat by simp
    also have "\<dots> = ws ! i" using ws i by (rule window_of_concat)
    finally have sl: "py_slice ?xs (int (i * n)) (int (Suc i * n)) = ws ! i" .
    have "[1..<Suc (length ws)] ! i = 1 + i" using i by (intro nth_upt) simp
    then have "[1..<Suc (length ws)] ! i = Suc i" by simp
    then show "map (\<lambda>j. window_rms ?dt (py_slice ?xs (int ((j - 1) * n)) (int (j * n))))
              [1..<Suc (length ws)] ! i = map (window_rms ?dt) ws ! i"
      using i sl by (simp del: upt_Suc of_nat_mult of_nat_Suc mult_Suc)
  qed
  moreover have "nat (len_ms (mono_segment ?xs fs sw)) = Suc (length ws)" using l by simp
  ultimately show ?thesis
    unfolding sliding_rms_mono n [symmetric] by simp
qed


lemma length_concat_replicate: "length (concat (replicate k xs)) = k * length xs"
  by (induction k) simp_all

lemma list_all_replicate_iff: "list_all P (replicate k x) \<longleftrightarrow> k = 0 \<or> P x"
  by (induction k) auto





lemma np_gt_simps:
  "np_gt (Some a) (Some b) \<longleftrightarrow> b < a" "\<not> np_gt None y" "\<not> np_gt x None"
  by (simp_all add: np_gt_def split: option.splits)








lemma len_ms_late_burst: "len_ms late_burst = 12"
  unfolding late_burst_def
  by (rule len_ms_mono_whole [where l = 12, simplified]) (simp_all add: length_concat_replicate)

lemma sliding_rms_late_burst:
  "sliding_rms late_burst = replicate 10 (Some 0) @ [Some 1]"
  unfolding late_burst_def
  by (subst sliding_rms_windows [where n = 48])
     (simp_all add: len_ms_late_burst [unfolded late_burst_def, simplified]
        array_dtype_def mono_segment_fields window_rms_const list_all_replicate_iff)

text \<open>
  Claim C5 (fails on the code). \<^verbatim>\<open>rms[-10:-1]\<close> holds the nine windows before
  the last one, not the last ten the comment of line 144 speaks of. On a buffer
  whose last window alone is loud the floor of the code is \<open>10\<^sup>-\<^sup>6\<close>, where ten
  times the mean of the last ten windows is 1; in general the last window never enters
  the estimate (\<open>noise_floor_ignores_last_window\<close> below).
\<close>

theorem noise_floor_skips_last_window:
  "sliding_rms late_burst = replicate 10 (Some 0) @ [Some 1] \<and>
   noise_floor (sliding_rms late_burst) = Some (1 / 10 ^ 6) \<and>
   spec_noise_floor (sliding_rms late_burst) = Some 1"
  unfolding sliding_rms_late_burst
  by (simp add: noise_floor_def spec_noise_floor_def py_slice_def py_index_def np_mean_nan_def
      np_mean_def sum_list_replicate)


lemma noise_floor_ignores_last_window:
  "noise_floor (rms_list @ [a]) = noise_floor (rms_list @ [b])"
  by (simp add: noise_floor_def py_slice_def py_index_def Let_def)


subsection \<open>crop\_ir\_tail applied twice\<close>

text \<open>
  Claim C6 (amended). Tail cropping is not idempotent. \<open>crop_ir_tail\<close> returns a
  proper prefix of every non-empty buffer (the slice ends at most at
  \<^verbatim>\<open>len(response) - 1\<close> milliseconds), so a second application to a cropped,
  non-empty buffer shortens it again; only the empty buffer is left as it is.
\<close>

theorem crop_ir_tail_twice:
  assumes "0 < fs"
  shows "\<exists>ys zs. crop_ir_tail (mono_segment xs fs w) = Inr (mono_segment ys fs w) \<and>
           crop_ir_tail (mono_segment ys fs w) = Inr (mono_segment zs fs w) \<and>
           ys = take (length ys) xs \<and> zs = take (length zs) ys \<and>
           (xs \<noteq> [] \<longrightarrow> length ys < length xs) \<and>
           (ys \<noteq> [] \<longrightarrow> length zs < length ys)"
proof -
  from crop_ir_tail_prefix [OF assms, of xs w] obtain m where
    m: "crop_ir_tail (mono_segment xs fs w) = Inr (mono_segment (take m xs) fs w)"
    "xs \<noteq> [] \<longrightarrow> m < length xs" by blast
  from crop_ir_tail_prefix [OF assms, of "take m xs" w] obtain n where
    n: "crop_ir_tail (mono_segment (take m xs) fs w) =
          Inr (mono_segment (take n (take m xs)) fs w)"
    "take m xs \<noteq> [] \<longrightarrow> n < length (take m xs)" by blast
  show ?thesis
    using m n
    by (intro exI [of _ "take m xs"] exI [of _ "take n (take m xs)"]) auto
qed

theorem crop_ir_tail_twice_witness:
  "(0::nat) < 48000 \<and>
   (\<exists>ys zs. crop_ir_tail loud576 = Inr (mono_segment ys 48000 2) \<and>
      crop_ir_tail (mono_segment ys 48000 2) = Inr (mono_segment zs 48000 2) \<and>
      length ys < 576 \<and> (ys \<noteq> [] \<longrightarrow> length zs < length ys))"
  using crop_ir_tail_twice [of 48000 "replicate 576 (- 32768)" 2]
  unfolding loud576_def by simp blast

lemma len_ms_loud576: "len_ms loud576 = 12"
  unfolding loud576_def by (rule len_ms_mono_whole [where l = 12, simplified]) simp_all

lemma sliding_rms_loud576: "sliding_rms loud576 = replicate 11 (Some 1)"
proof -
  have "map (\<lambda>j. window_rms Int16
                 (py_slice (replicate 576 (- 32768)) (int ((j - 1) * 48)) (int (j * 48))))
          [1..<12] = replicate (12 - 1) (Some 1)"
  proof (rule map_upt_const)
    fix j :: nat assume j: "1 \<le> j" "j < 12"
    then have h: "min (j * 48) 576 - min ((j - 1) * 48) 576 = 48" by (simp add: min_def) arith
    show "window_rms Int16
                 (py_slice (replicate 576 (- 32768)) (int ((j - 1) * 48)) (int (j * 48))) = Some 1"
      unfolding py_slice_replicate h by (simp add: window_rms_const)
  qed
  then show ?thesis
    using len_ms_loud576
    by (simp add: loud576_def sliding_rms_mono array_dtype_def mono_segment_fields)
qed


lemma noise_floor_loud576: "noise_floor (sliding_rms loud576) = Some 10"
  unfolding sliding_rms_loud576
  by (simp add: noise_floor_def py_slice_def py_index_def np_mean_nan_def np_mean_def
      sum_list_replicate)

lemma crop_ir_tail_loud576:
  "crop_ir_tail loud576 = Inr (mono_segment (replicate 96 (- 32768)) 48000 2)"
proof -
  have "tail_scan (sliding_rms loud576) (noise_floor (sliding_rms loud576))
          (length (sliding_rms loud576) - 1) (- 1) =
        (if 2 \<le> length (sliding_rms loud576) - 1 then 2 else - 1)"
    by (rule tail_scan_none_above)
       (simp add: noise_floor_loud576, simp add: sliding_rms_loud576 np_gt_simps)
  then have e: "tail_scan (sliding_rms loud576) (noise_floor (sliding_rms loud576))
          (length (sliding_rms loud576) - 1) (- 1) = 2"
    by (simp add: sliding_rms_loud576)
  show ?thesis
    using crop_ir_tail_by_end [OF _ e [unfolded loud576_def]] len_ms_loud576
    by (simp add: loud576_def)
qed

lemma crop_ir_tail_loud96:
  "crop_ir_tail (mono_segment (replicate 96 (- 32768)) 48000 2) =
     Inr (mono_segment (replicate 48 (- 32768)) 48000 2)"
proof -
  let ?seg = "mono_segment (replicate 96 (- 32768)) 48000 2"
  have l: "len_ms ?seg = 2"
    by (rule len_ms_mono_whole [where l = 2, simplified]) simp_all
  have "length (sliding_rms ?seg) - 1 = 0" by (simp add: length_sliding_rms l)
  then have e: "tail_scan (sliding_rms ?seg) (noise_floor (sliding_rms ?seg))
          (length (sliding_rms ?seg) - 1) (- 1) = - 1"
    by simp
  show ?thesis
    using crop_ir_tail_by_end [OF _ e] l by simp
qed

theorem crop_ir_tail_not_idempotent_counterexample:
  "crop_ir_tail loud576 = Inr (mono_segment (replicate 96 (- 32768)) 48000 2) \<and>
   crop_ir_tail (mono_segment (replicate 96 (- 32768)) 48000 2) =
     Inr (mono_segment (replicate 48 (- 32768)) 48000 2)"
  using crop_ir_tail_loud576 crop_ir_tail_loud96 by simp

subsection \<open>crop\_ir\_head: where the two ears are cut\<close>

text \<open>
  The rounded length of a segment, as a number of frames, is within half a millisecond
  of the frames held.
\<close>

lemma len_ms_frames_upper:
  assumes "0 < frame_rate seg"
  shows "of_int (len_ms seg) * (real (frame_rate seg) / 1000)
           \<le> real (frames seg) + real (frame_rate seg) / 2000"
proof -
  define x where "x = real (frame_rate seg) / 1000"
  have x: "0 < x" using assms by (simp add: x_def)
  have "of_int (len_ms seg) \<le> 1000 * (real (frames seg) / real (frame_rate seg)) + 1 / 2"
    unfolding len_ms_def by (rule py_round_upper)
  also have "1000 * (real (frames seg) / real (frame_rate seg)) = real (frames seg) / x"
    by (simp add: x_def)
  finally have "of_int (len_ms seg) * x \<le> (real (frames seg) / x + 1 / 2) * x"
    using x by (simp only: mult_le_cancel_right_pos)
  also have "\<dots> = real (frames seg) + x / 2" using x by (simp add: field_simps)
  finally show ?thesis by (simp add: x_def)
qed

lemma len_ms_frames_lower:
  assumes "0 < frame_rate seg"
  shows "real (frames seg) - real (frame_rate seg) / 2000
           \<le> of_int (len_ms seg) * (real (frame_rate seg) / 1000)"
proof -
  define x where "x = real (frame_rate seg) / 1000"
  have x: "0 < x" using assms by (simp add: x_def)
  have "1000 * (real (frames seg) / real (frame_rate seg)) - 1 / 2 \<le> of_int (len_ms seg)"
    unfolding len_ms_def by (rule py_round_lower)
  moreover have "1000 * (real (frames seg) / real (frame_rate seg)) = real (frames seg) / x"
    by (simp add: x_def)
  ultimately have "(real (frames seg) / x - 1 / 2) * x \<le> of_int (len_ms seg) * x"
    using x by (simp only: mult_le_cancel_right_pos)
  moreover have "(real (frames seg) / x - 1 / 2) * x = real (frames seg) - x / 2"
    using x by (simp add: field_simps)
  ultimately show ?thesis by (simp add: x_def)
qed

lemma getitem_slice_mono:
  assumes fs: "0 < fs"
    and s0: "0 \<le> (case start of None \<Rightarrow> 0 | Some v \<Rightarrow> v)"
    and e0: "0 \<le> (case stop of None \<Rightarrow> of_int (len_ms (mono_segment xs fs w)) | Some v \<Rightarrow> v)"
  shows "getitem_slice (mono_segment xs fs w) start stop =
     Inr (mono_segment
            (sliced xs
               (nat \<lfloor>min (case start of None \<Rightarrow> 0 | Some v \<Rightarrow> v)
                        (of_int (len_ms (mono_segment xs fs w))) * (real fs / 1000)\<rfloor>)
               (nat \<lfloor>min (case stop of None \<Rightarrow> of_int (len_ms (mono_segment xs fs w)) | Some v \<Rightarrow> v)
                        (of_int (len_ms (mono_segment xs fs w))) * (real fs / 1000)\<rfloor>))
            fs w)"
proof -
  let ?seg = "mono_segment xs fs w"
  define l :: real where "l = of_int (len_ms ?seg)"
  define x where "x = real fs / 1000"
  define sv where "sv = min (case start of None \<Rightarrow> 0 | Some v \<Rightarrow> v) l"
  define ev where "ev = min (case stop of None \<Rightarrow> l | Some v \<Rightarrow> v) l"
  define A where "A = \<lfloor>sv * x\<rfloor>"
  define E where "E = \<lfloor>ev * x\<rfloor>"
  have x: "0 < x" using fs by (simp add: x_def)
  have l0: "0 \<le> l" by (simp add: l_def len_ms_nonneg)
  have sv0: "0 \<le> sv" using s0 l0 by (simp add: sv_def)
  have ev0: "0 \<le> ev" unfolding ev_def l_def using e0 by (simp add: len_ms_nonneg)
  have A0: "0 \<le> A" using sv0 x by (simp add: A_def)
  have E0: "0 \<le> E" using ev0 x by (simp add: E_def)
  have pa: "parse_position ?seg sv = A"
    using sv0 by (simp add: parse_position_nonneg A_def x_def mono_segment_fields)
  have pe: "parse_position ?seg ev = E"
    using ev0 by (simp add: parse_position_nonneg E_def x_def mono_segment_fields)
  have "ev * x \<le> l * x" using x by (simp add: ev_def)
  also have "\<dots> \<le> real (length xs) + x / 2"
    using len_ms_frames_upper [of ?seg] fs by (simp add: l_def x_def mono_segment_fields)
  finally have "real_of_int E \<le> real (length xs) + x / 2"
    unfolding E_def using of_int_floor_le [of "ev * x"] by linarith
  then have EF: "real_of_int E - real (length xs) \<le> x / 2" by simp
  define data where "data = take (nat E - nat A) (drop (nat A) xs)"
  have ps: "py_slice xs A E = data"
    using A0 E0 by (simp add: py_slice_nonneg data_def)
  define d where "d = E - A - int (length data)"
  have dle: "real_of_int d \<le> x / 2 \<or> d \<le> 0"
  proof (cases "int (length data) = E - A")
    case True
    then show ?thesis by (simp add: d_def)
  next
    case False
    show ?thesis
    proof (cases "d \<le> 0")
      case True
      then show ?thesis by simp
    next
      case pos: False
      have "length data = min (nat E - nat A) (length xs - nat A)"
        by (simp add: data_def min.commute)
      with False pos A0 E0 have ld: "length data = length xs - nat A"
        unfolding d_def by arith
      have "d \<le> E - int (length xs)"
        using ld A0 E0 unfolding d_def by linarith
      then have "real_of_int d \<le> real_of_int E - real (length xs)"
        by (metis of_int_diff of_int_le_iff of_int_of_nat_eq)
      with EF show ?thesis by linarith
    qed
  qed
  have noerr: "\<not> (d \<noteq> 0 \<and> frame_count_ms ?seg 2 < of_int d)"
  proof -
    have "frame_count_ms ?seg 2 = 2 * x" by (simp add: frame_count_ms_def x_def mono_segment_fields)
    moreover have "real_of_int d \<le> 2 * x"
      using dle
    proof
      assume "real_of_int d \<le> x / 2" with x show ?thesis by linarith
    next
      assume "d \<le> 0"
      then have "real_of_int d \<le> 0" by (simp only: of_int_le_0_iff)
      with x show ?thesis by linarith
    qed
    ultimately show ?thesis by linarith
  qed
  have res: "(if data = [] then data else data @ replicate (nat d) 0) = sliced xs (nat A) (nat E)"
  proof -
    have "nat d = nat E - nat A - length data"
      using A0 E0 unfolding d_def by linarith
    then show ?thesis by (simp add: sliced_def data_def Let_def)
  qed
  have "getitem_slice ?seg start stop = Inr (mono_segment (sliced xs (nat A) (nat E)) fs w)"
    unfolding getitem_slice_def Let_def
    unfolding l_def [symmetric] sv_def [symmetric] ev_def [symmetric] pa pe
    using noerr res [symmetric]
    by (simp add: mono_segment_fields ps d_def [symmetric])
  then show ?thesis
    unfolding A_def E_def sv_def ev_def l_def x_def .
qed


lemma sliced_nth:
  assumes "a + k < e" and "a + k < length xs"
  shows "k < length (sliced xs a e)" and "sliced xs a e ! k = xs ! (a + k)"
proof -
  define data where "data = take (e - a) (drop a xs)"
  have ld: "length data = min (e - a) (length xs - a)" by (simp add: data_def min.commute)
  with assms have k: "k < length data" by arith
  then have ne: "data \<noteq> []" by auto
  have s: "sliced xs a e = data @ replicate (e - a - length data) 0"
    using ne by (simp add: sliced_def data_def Let_def)
  show "k < length (sliced xs a e)" using k by (simp add: s)
  have "sliced xs a e ! k = data ! k" using k by (simp add: s nth_append)
  also have "\<dots> = xs ! (a + k)" using k assms by (simp add: data_def)
  finally show "sliced xs a e ! k = xs ! (a + k)" .
qed

text \<open>Cutting a buffer at its rounded length loses less than half a millisecond and a frame.\<close>

lemma snap_lower:
  assumes "0 < fs"
  shows "real (length xs) - real fs / 2000 - 1
           < real (nat \<lfloor>of_int (len_ms (mono_segment xs fs w)) * (real fs / 1000)\<rfloor>)"
proof -
  let ?v = "of_int (len_ms (mono_segment xs fs w)) * (real fs / 1000)"
  have "real (length xs) - real fs / 2000 \<le> ?v"
    using len_ms_frames_lower [of "mono_segment xs fs w"] assms
    by (simp add: mono_segment_fields)
  moreover have "?v < of_int \<lfloor>?v\<rfloor> + 1" by linarith
  moreover have "0 \<le> ?v" using assms by (simp add: len_ms_nonneg)
  then have "real (nat \<lfloor>?v\<rfloor>) = of_int \<lfloor>?v\<rfloor>" by simp
  ultimately show ?thesis by linarith
qed

lemma keeps_sliced_to_len:
  assumes fs: "0 < fs"
  shows "keeps (real fs / 2000 + 1) xs
           (sliced xs a (nat \<lfloor>of_int (len_ms (mono_segment xs fs w)) * (real fs / 1000)\<rfloor>)) a"
  unfolding keeps_def
proof (intro allI impI)
  fix k assume k: "real (a + k) + (real fs / 2000 + 1) \<le> real (length xs)"
  let ?e = "nat \<lfloor>of_int (len_ms (mono_segment xs fs w)) * (real fs / 1000)\<rfloor>"
  from k snap_lower [OF fs, of xs w] have "real (a + k) < real ?e" by linarith
  then have 1: "a + k < ?e" by (simp only: of_nat_less_iff)
  from k fs have "real (a + k) < real (length xs)" by (simp add: add_pos_nonneg less_le_trans)
  then have 2: "a + k < length xs" by (simp only: of_nat_less_iff)
  from sliced_nth [OF 1 2]
  show "k < length (sliced xs a ?e) \<and> sliced xs a ?e ! k = xs ! (a + k)" by simp
qed

lemma keeps_sliced_to_len_minus_1:
  assumes fs: "0 < fs"
  shows "keeps (real fs / 2000 + 2) xs
           (sliced xs 0 (nat (\<lfloor>of_int (len_ms (mono_segment xs fs w)) * (real fs / 1000)\<rfloor> - 1))) 0"
  unfolding keeps_def
proof (intro allI impI)
  fix k assume k: "real (0 + k) + (real fs / 2000 + 2) \<le> real (length xs)"
  let ?E = "\<lfloor>of_int (len_ms (mono_segment xs fs w)) * (real fs / 1000)\<rfloor>"
  have nn: "0 \<le> ?E" using fs by (simp add: len_ms_nonneg)
  from k snap_lower [OF fs, of xs w] have "real k + 1 < real (nat ?E)" by simp
  then have "k + 1 < nat ?E" by (metis of_nat_1 of_nat_add of_nat_less_iff)
  then have 1: "0 + k < nat (?E - 1)" using nn by linarith
  from k fs have "real k < real (length xs)" by (simp add: add_pos_nonneg less_le_trans)
  then have 2: "0 + k < length xs" by simp
  from sliced_nth [OF 1 2]
  show "k < length (sliced xs 0 (nat (?E - 1))) \<and> sliced xs 0 (nat (?E - 1)) ! k = xs ! (0 + k)"
    by simp
qed

lemma keeps_trans:
  assumes 1: "keeps m1 xs ys s" and 2: "keeps m2 ys zs 0" and m: "0 \<le> m1" "0 \<le> m2"
  shows "keeps (m1 + m2 + 1) xs zs s"
  unfolding keeps_def
proof (intro allI impI)
  fix k assume k: "real (s + k) + (m1 + m2 + 1) \<le> real (length xs)"
  define k1 where "k1 = nat \<lfloor>real (length xs) - real s - m1\<rfloor>"
  have pos: "0 \<le> real (length xs) - real s - m1" using k m by simp
  then have k1r: "real k1 = of_int \<lfloor>real (length xs) - real s - m1\<rfloor>"
    by (simp add: k1_def)
  then have "real k1 \<le> real (length xs) - real s - m1" by linarith
  then have "real (s + k1) + m1 \<le> real (length xs)" by simp
  with 1 have "k1 < length ys" by (simp add: keeps_def)
  moreover have "real (length xs) - real s - m1 < real k1 + 1" using k1r by linarith
  ultimately have "real (length xs) - real s - m1 < real (length ys)"
    by (metis less_trans_Suc of_nat_Suc of_nat_less_iff order_less_le_trans add.commute
        less_eq_real_def linorder_not_less of_nat_1 of_nat_add)
  with k have "real (0 + k) + m2 \<le> real (length ys)" by simp
  with 2 have a: "k < length zs" "zs ! k = ys ! k" by (simp_all add: keeps_def)
  from k m have "real (s + k) + m1 \<le> real (length xs)" by simp
  with 1 have "ys ! k = xs ! (s + k)" by (simp add: keeps_def)
  with a show "k < length zs \<and> zs ! k = xs ! (s + k)" by simp
qed

lemma fade_in_mono:
  assumes fs: "0 < fs"
  shows "fade_in (mono_segment xs fs w) (2 / real fs / 1000) =
     Inr (mono_segment
            (sliced xs 0 (nat \<lfloor>of_int (len_ms (mono_segment xs fs w)) * (real fs / 1000)\<rfloor>))
            fs w)"
proof -
  let ?seg = "mono_segment xs fs w"
  let ?d = "2 / real fs / 1000"
  have dx: "?d * (real fs / 1000) = 2 / 10 ^ 6" using fs by simp
  have d0: "0 \<le> ?d" by simp
  have k: "nat (py_int (frame_count_ms ?seg ?d)) = 0"
    unfolding frame_count_ms_def mono_segment_fields dx by (simp add: py_int_def)
  have l0: "(0::real) \<le> of_int (len_ms ?seg)" by (simp add: len_ms_nonneg)
  have "\<lfloor>min ?d (of_int (len_ms ?seg)) * (real fs / 1000)\<rfloor> = 0"
  proof (rule floor_unique)
    define d where "d = ?d"
    define l :: real where "l = of_int (len_ms ?seg)"
    define x where "x = real fs / 1000"
    have x: "0 < x" using fs by (simp add: x_def)
    have d: "0 \<le> d" "d * x = 2 / 10 ^ 6" using dx by (simp_all add: d_def x_def)
    have l: "0 \<le> l" using l0 by (simp add: l_def)
    have "0 \<le> min d l * x" using d l x by simp
    then show "of_int 0 \<le> min ?d (of_int (len_ms ?seg)) * (real fs / 1000)"
      by (simp only: d_def l_def x_def of_int_0)
    have "min d l * x \<le> d * x" using x by simp
    also have "\<dots> < 1" using d by simp
    finally show "min ?d (of_int (len_ms ?seg)) * (real fs / 1000) < of_int 0 + 1"
      by (simp only: d_def l_def x_def of_int_0 add_0)
  qed
  then have a: "nat \<lfloor>min (case Some ?d of None \<Rightarrow> 0 | Some v \<Rightarrow> v)
                 (of_int (len_ms ?seg)) * (real fs / 1000)\<rfloor> = 0" by simp
  have e: "nat \<lfloor>min (case None of None \<Rightarrow> of_int (len_ms ?seg) | Some v \<Rightarrow> v)
                 (of_int (len_ms ?seg)) * (real fs / 1000)\<rfloor> =
           nat \<lfloor>of_int (len_ms ?seg) * (real fs / 1000)\<rfloor>" by simp
  have sl: "getitem_slice ?seg (Some ?d) None =
      Inr (mono_segment (sliced xs 0 (nat \<lfloor>of_int (len_ms ?seg) * (real fs / 1000)\<rfloor>)) fs w)"
    using getitem_slice_mono [OF fs, where start = "Some ?d" and stop = None and xs = xs and w = w]
      l0 d0 unfolding a e by simp
  show ?thesis
    unfolding fade_in_def Let_def sl k
    by (simp add: mono_segment_def)
qed


lemma crop_to_samples_mono:
  assumes fs: "0 < fs"
  shows "\<exists>zs. crop_to_samples (mono_segment ys fs w) = Inr (mono_segment zs fs w) \<and>
              keeps (real fs / 2000 + 2) ys zs 0"
proof -
  let ?seg = "mono_segment ys fs w"
  define x where "x = real fs / 1000"
  define l :: real where "l = of_int (len_ms ?seg)"
  define EL where "EL = \<lfloor>l * x\<rfloor>"
  define e3 where "e3 = of_int (EL - 1) / real fs * 1000"
  have x: "0 < x" using fs by (simp add: x_def)
  have l0: "0 \<le> l" by (simp add: l_def len_ms_nonneg)
  have lx: "l / 1000 * real fs = l * x" by (simp add: x_def)
  have "py_int (l / 1000 * real fs) = EL"
    unfolding lx EL_def using l0 x by (intro py_int_nonneg) simp
  then have stop: "of_int (py_int (of_int (len_ms ?seg) / 1000 * real (frame_rate ?seg)) - 1)
                / real (frame_rate ?seg) * 1000 = e3"
    by (simp add: e3_def l_def mono_segment_fields)
  have e3x: "e3 * x = of_int (EL - 1)" using fs by (simp add: e3_def x_def)
  have c: "crop_to_samples ?seg = getitem_slice ?seg None (Some e3)"
    unfolding crop_to_samples_def stop ..
  show ?thesis
  proof (cases "1 \<le> EL")
    case True
    then have e30: "0 \<le> e3" by (simp add: e3_def)
    have "of_int (EL - 1) \<le> l * x" unfolding EL_def by linarith
    then have "e3 * x \<le> l * x" by (simp only: e3x)
    then have "e3 \<le> l" using x by (simp only: mult_le_cancel_right_pos)
    then have "\<lfloor>min e3 l * x\<rfloor> = EL - 1" by (simp add: min_def e3x)
    then have E: "nat \<lfloor>min (case Some e3 of None \<Rightarrow> of_int (len_ms ?seg) | Some v \<Rightarrow> v)
               (of_int (len_ms ?seg)) * (real fs / 1000)\<rfloor> =
             nat (\<lfloor>of_int (len_ms ?seg) * (real fs / 1000)\<rfloor> - 1)"
      by (simp add: l_def x_def EL_def)
    have "\<lfloor>min 0 l * x\<rfloor> = 0" using l0 by (simp add: min_def)
    then have A: "nat \<lfloor>min (case None of None \<Rightarrow> 0 | Some v \<Rightarrow> v)
               (of_int (len_ms ?seg)) * (real fs / 1000)\<rfloor> = 0"
      by (simp add: l_def x_def)
    have "getitem_slice ?seg None (Some e3) =
        Inr (mono_segment (sliced ys 0
               (nat (\<lfloor>of_int (len_ms ?seg) * (real fs / 1000)\<rfloor> - 1))) fs w)"
      using getitem_slice_mono [OF fs, where start = None and stop = "Some e3" and xs = ys
          and w = w] e30
      unfolding A E by simp
    with keeps_sliced_to_len_minus_1 [OF fs, of ys w] c show ?thesis by auto
  next
    case False
    have EL0: "l * x < 1" using False unfolding EL_def by linarith
    have neg: "e3 < 0" using False fs by (simp add: e3_def divide_neg_pos)
    define E where "E = py_int (frame_count_ms ?seg (l - \<bar>e3\<bar>))"
    have "frame_count_ms ?seg (l - \<bar>e3\<bar>) = l * x + e3 * x"
      using neg by (simp add: frame_count_ms_def mono_segment_fields x_def algebra_simps)
    also have "\<dots> \<le> l * x - 1" using False unfolding e3x by simp
    finally have fc: "frame_count_ms ?seg (l - \<bar>e3\<bar>) < 0" using EL0 by linarith
    then have E0: "E \<le> 0"
      unfolding E_def py_int_def by (simp add: ceiling_le_iff less_imp_le)
    have s: "parse_position ?seg (min (case None of None \<Rightarrow> 0 | Some v \<Rightarrow> v)
               (of_int (len_ms ?seg))) = 0"
      using l0 by (simp add: l_def min_def parse_position_nonneg)
    have "min e3 l = e3" using neg l0 by simp
    then have e: "parse_position ?seg (min (case Some e3 of None \<Rightarrow> of_int (len_ms ?seg)
               | Some v \<Rightarrow> v) (of_int (len_ms ?seg))) = E"
      using neg by (simp add: parse_position_def E_def l_def)
    have data: "map (\<lambda>t. py_slice t 0 E) (tracks ?seg) = [py_slice ys 0 E]"
      by (simp add: mono_segment_fields)
    have miss: "E \<le> (case [py_slice ys 0 E] of [] \<Rightarrow> 0 | t # _ \<Rightarrow> int (length t))"
      using E0 by simp
    have "getitem_slice ?seg None (Some e3) = Inr (?seg\<lparr>tracks := [py_slice ys 0 E]\<rparr>)"
      using s e data miss by (rule getitem_slice_no_missing)
    then have r: "crop_to_samples ?seg = Inr (mono_segment (py_slice ys 0 E) fs w)"
      unfolding c by (simp add: mono_segment_def)
    have "keeps (real fs / 2000 + 2) ys (py_slice ys 0 E) 0"
      unfolding keeps_def
    proof (intro allI impI)
      fix k assume k: "real (0 + k) + (real fs / 2000 + 2) \<le> real (length ys)"
      have "real (length ys) - real fs / 2000 - 1 < real (nat EL)"
        using snap_lower [OF fs, of ys w] by (simp add: EL_def l_def x_def)
      moreover have "nat EL = 0" using False by simp
      ultimately have False using k by simp
      then show "k < length (py_slice ys 0 E) \<and> py_slice ys 0 E ! k = ys ! (0 + k)" ..
    qed
    with r show ?thesis by blast
  qed
qed


lemma one_ear:
  assumes fs: "0 < fs" and a0: "0 \<le> a" and al: "a \<le> of_int (len_ms (mono_segment xs fs w))"
  shows "\<exists>y1 y2 y3.
      getitem_slice (mono_segment xs fs w) (Some a) None = Inr (mono_segment y1 fs w) \<and>
      fade_in (mono_segment y1 fs w) (2 / real fs / 1000) = Inr (mono_segment y2 fs w) \<and>
      crop_to_samples (mono_segment y2 fs w) = Inr (mono_segment y3 fs w) \<and>
      keeps (3 * (real fs / 2000) + 6) xs y3 (nat \<lfloor>a * (real fs / 1000)\<rfloor>)"
proof -
  let ?seg = "mono_segment xs fs w"
  define A where "A = nat \<lfloor>a * (real fs / 1000)\<rfloor>"
  define y1 where "y1 = sliced xs A (nat \<lfloor>of_int (len_ms ?seg) * (real fs / 1000)\<rfloor>)"
  define y2 where
    "y2 = sliced y1 0 (nat \<lfloor>of_int (len_ms (mono_segment y1 fs w)) * (real fs / 1000)\<rfloor>)"
  have l0: "(0::real) \<le> of_int (len_ms ?seg)" by (simp add: len_ms_nonneg)
  have "min a (of_int (len_ms ?seg)) = a" using al by simp
  then have 1: "getitem_slice ?seg (Some a) None = Inr (mono_segment y1 fs w)"
    using getitem_slice_mono [OF fs, where start = "Some a" and stop = None and xs = xs
        and w = w] a0 l0
    by (simp add: y1_def A_def)
  have 2: "fade_in (mono_segment y1 fs w) (2 / real fs / 1000) = Inr (mono_segment y2 fs w)"
    unfolding y2_def by (rule fade_in_mono [OF fs])
  from crop_to_samples_mono [OF fs, of y2 w] obtain y3 where
    3: "crop_to_samples (mono_segment y2 fs w) = Inr (mono_segment y3 fs w)"
    and k3: "keeps (real fs / 2000 + 2) y2 y3 0" by blast
  have k1: "keeps (real fs / 2000 + 1) xs y1 A"
    unfolding y1_def by (rule keeps_sliced_to_len [OF fs])
  have k2: "keeps (real fs / 2000 + 1) y1 y2 0"
    unfolding y2_def by (rule keeps_sliced_to_len [OF fs])
  have "keeps (real fs / 2000 + 1 + (real fs / 2000 + 1) + 1) xs y2 A"
    using k1 k2 by (rule keeps_trans) simp_all
  then have "keeps (real fs / 2000 + 1 + (real fs / 2000 + 1) + 1 + (real fs / 2000 + 2) + 1)
               xs y3 A"
    using k3 by (rule keeps_trans) simp_all
  then have "keeps (3 * (real fs / 2000) + 6) xs y3 A"
    by (simp add: algebra_simps)
  with 1 2 3 show ?thesis unfolding A_def by blast
qed

lemma trim_heads_mono:
  assumes fs: "0 < fs" and a0: "0 \<le> a"
    and al: "a \<le> of_int (len_ms (mono_segment xl fs wl))"
    and ar: "a \<le> of_int (len_ms (mono_segment xr fs wr))"
  shows "\<exists>yl yr.
      trim_heads (mono_segment xl fs wl) a (mono_segment xr fs wr) a =
        Inr (mono_segment yl fs wl, mono_segment yr fs wr) \<and>
      keeps (3 * (real fs / 2000) + 6) xl yl (nat \<lfloor>a * (real fs / 1000)\<rfloor>) \<and>
      keeps (3 * (real fs / 2000) + 6) xr yr (nat \<lfloor>a * (real fs / 1000)\<rfloor>)"
proof -
  from one_ear [OF fs a0 al] obtain l1 l2 l3 where
    l: "getitem_slice (mono_segment xl fs wl) (Some a) None = Inr (mono_segment l1 fs wl)"
       "fade_in (mono_segment l1 fs wl) (2 / real fs / 1000) = Inr (mono_segment l2 fs wl)"
       "crop_to_samples (mono_segment l2 fs wl) = Inr (mono_segment l3 fs wl)"
       "keeps (3 * (real fs / 2000) + 6) xl l3 (nat \<lfloor>a * (real fs / 1000)\<rfloor>)"
    by blast
  from one_ear [OF fs a0 ar] obtain r1 r2 r3 where
    r: "getitem_slice (mono_segment xr fs wr) (Some a) None = Inr (mono_segment r1 fs wr)"
       "fade_in (mono_segment r1 fs wr) (2 / real fs / 1000) = Inr (mono_segment r2 fs wr)"
       "crop_to_samples (mono_segment r2 fs wr) = Inr (mono_segment r3 fs wr)"
       "keeps (3 * (real fs / 2000) + 6) xr r3 (nat \<lfloor>a * (real fs / 1000)\<rfloor>)"
    by blast
  have "trim_heads (mono_segment xl fs wl) a (mono_segment xr fs wr) a =
        Inr (mono_segment l3 fs wl, mono_segment r3 fs wr)"
    unfolding trim_heads_def
    using l(2) r(2) by (simp add: l(1) r(1) bind_simps mono_segment_fields l(3) r(3))
  with l(4) r(4) show ?thesis by blast
qed

lemma takeWhile_zeros:
  "v \<noteq> (0::int) \<Longrightarrow> takeWhile (\<lambda>v. v = 0) (replicate n 0 @ v # xs) = replicate n 0"
  by (induction n) simp_all

lemma first_nonzero_impulse: "first_nonzero (impulse n) = [n]"
  by (simp add: first_nonzero_def impulse_def mono_segment_def takeWhile_zeros)

lemma len_ms_impulse: "n \<le> 239 \<Longrightarrow> len_ms (impulse n) = 5"
  unfolding impulse_def
  using len_ms_mono_whole [of 48000 "replicate n 0 @ 20000 # replicate (239 - n) 0" 5 2]
  by simp

lemma crop_ir_head_same_start:
  assumes fs: "0 < frame_rate left" "frame_rate right = frame_rate left"
    and pl: "find_peaks left = pl # pls"
    and pr: "find_peaks right = pr # prs"
    and d: "DELAYS speaker = Some delay"
    and dir: "if pl < pr then speaker ! 1 \<noteq> CHR ''R'' else speaker ! 1 \<noteq> CHR ''L''"
  shows "crop_ir_head find_peaks left right speaker =
           trim_heads left (real (min pl pr) / real (frame_rate left) * 1000 - delay)
             right (real (min pl pr) / real (frame_rate left) * 1000 - delay)"
proof (cases "pl < pr")
  case True
  then have "real pl / real (frame_rate left) * 1000 < real pr / real (frame_rate left) * 1000"
    using fs by (simp add: divide_strict_right_mono)
  then show ?thesis
    using True dir by (simp add: crop_ir_head_def pl pr d fs Let_def min_def)
next
  case False
  then have "\<not> real pl / real (frame_rate left) * 1000 < real pr / real (frame_rate left) * 1000"
    using fs by (simp add: divide_right_mono not_less)
  then show ?thesis
    using False dir by (simp add: crop_ir_head_def pl pr d fs Let_def min_def)
qed

lemma onset_position:
  fixes c :: real
  assumes c0: "0 \<le> c" and cn: "c \<le> real n"
  shows "nat \<lfloor>real n - c\<rfloor> \<le> n" and "c \<le> real (n - nat \<lfloor>real n - c\<rfloor>)"
    and "real (n - nat \<lfloor>real n - c\<rfloor>) < c + 1"
proof -
  define S where "S = nat \<lfloor>real n - c\<rfloor>"
  have nn: "0 \<le> \<lfloor>real n - c\<rfloor>" using cn by simp
  have rS: "real S = of_int \<lfloor>real n - c\<rfloor>" unfolding S_def using nn by simp
  have le: "real S \<le> real n - c" unfolding rS by (rule of_int_floor_le)
  have gt: "real n - c < real S + 1" unfolding rS by linarith
  have Sn: "S \<le> n" using le c0 by linarith
  show "nat \<lfloor>real n - c\<rfloor> \<le> n" using Sn by (simp add: S_def)
  have "real (n - S) = real n - real S" using Sn by simp
  then show "c \<le> real (n - nat \<lfloor>real n - c\<rfloor>)" "real (n - nat \<lfloor>real n - c\<rfloor>) < c + 1"
    using le gt unfolding S_def by linarith+
qed


lemma DELAYS_simps:
  "DELAYS ''FL'' = Some (1487 / 10000)" "DELAYS ''FR'' = Some (1487 / 10000)"
  "DELAYS ''FC'' = Some (2557 / 10000)" "DELAYS ''BL'' = Some (1487 / 10000)"
  "DELAYS ''BR'' = Some (1487 / 10000)" "DELAYS ''SL'' = Some (417 / 10000)"
  "DELAYS ''SR'' = Some (417 / 10000)"
  by (simp_all add: DELAYS_def)

lemma py_int_numeral_simps:
  "py_int 0 = 0" "py_int (- 1) = - 1"
  by (simp_all add: py_int_def ceiling_def)

lemma len_ms_five_frames: "len_ms (mono_segment (replicate 5 0) 48000 2) = 0"
  by (simp add: len_ms_def frames_mono py_round_def mono_segment_fields)

lemma len_ms_no_frames: "len_ms (mono_segment [] 48000 2) = 0"
  by (simp add: len_ms_def frames_mono py_round_def mono_segment_fields)

lemma early_slice:
  assumes "n = 3 \<or> n = 5"
  shows "getitem_slice (impulse n) (Some (- (431 / 5000))) None =
           Inr (mono_segment (replicate 5 0) 48000 2)"
proof -
  have l: "len_ms (impulse n) = 5" using assms by (auto simp: len_ms_impulse)
  have r: "frame_rate (impulse n) = 48000" by (simp add: impulse_def mono_segment_fields)
  have s: "parse_position (impulse n) (- (431 / 5000)) = 235"
    by (simp add: parse_position_def l frame_count_ms_def r py_int_def) 
  have e: "parse_position (impulse n) 5 = 240"
    by (simp add: parse_position_def l frame_count_ms_def r py_int_def)
  have d: "py_slice (replicate n 0 @ 20000 # replicate (239 - n) (0::int)) 235 240 = replicate 5 0"
    using assms by (auto simp: py_slice_def py_index_def drop_Cons')
  have tr: "tracks (impulse n) = [replicate n 0 @ 20000 # replicate (239 - n) 0]"
    by (simp add: impulse_def mono_segment_fields)
  have f: "frame_count_ms (impulse n) 2 = 96"
    by (simp add: frame_count_ms_def r)
  show ?thesis
    unfolding getitem_slice_def
    by (simp add: l s e f tr d Let_def) (simp add: impulse_def mono_segment_def)
qed

lemma early_fade:
  "fade_in (mono_segment (replicate 5 0) 48000 2) (2 / real 48000 / 1000) =
     Inr (mono_segment [] 48000 2)"
  using fade_in_mono [of 48000 "replicate 5 0" 2]
  by (simp add: len_ms_five_frames sliced_def)

lemma early_crop:
  "crop_to_samples (mono_segment [] 48000 2) = Inr (mono_segment [] 48000 2)"
proof -
  have s: "parse_position (mono_segment [] 48000 2) 0 = 0"
    by (simp add: parse_position_def frame_count_ms_def py_int_def)
  have e: "parse_position (mono_segment [] 48000 2) (- (1 / 48)) = - 1"
    by (simp add: parse_position_def frame_count_ms_def py_int_def len_ms_no_frames
        mono_segment_fields ceiling_def)
  show ?thesis
    unfolding crop_to_samples_def getitem_slice_def
    by (simp add: len_ms_no_frames py_int_numeral_simps mono_segment_fields s e Let_def
        frame_count_ms_def)
      (simp add: mono_segment_def py_slice_def)
qed


text \<open>
  Where the onsets land. Let the first peak be found at sample \<open>pl\<close> of the left and
  at sample \<open>pr\<close> of the right buffer, in the order the channel asks for, and let
  \<open>near\<close> be the smaller of the two. When the near peak is not earlier than the
  configured delay of the channel, and \<open>near - delay\<close> (in milliseconds) is within
  the rounded length of both buffers, \<open>crop_ir_head\<close> cuts both buffers at the same
  frame \<open>S\<close>, the whole part of \<open>near - delay * fs / 1000\<close>: the returned buffers
  hold the samples from \<open>S\<close> on (up to the last \<open>3 * fs / 2000 + 6\<close> samples), so the
  near peak lands \<open>near - S\<close> samples from the start, which is the delay rounded up
  to a whole sample, and the far peak lands at the delay plus the measured
  inter-aural time difference, rounded up to a whole sample.
\<close>

theorem crop_ir_head_alignment:
  fixes xl xr :: "int list" and delay :: real and pl pr fs :: nat
  defines "itd \<equiv> \<bar>real pl / real fs * 1000 - real pr / real fs * 1000\<bar>"
    and "S \<equiv> nat \<lfloor>real (min pl pr) - delay * (real fs / 1000)\<rfloor>"
  assumes fs: "0 < fs"
    and pl: "find_peaks (mono_segment xl fs wl) = pl # pls"
    and pr: "find_peaks (mono_segment xr fs wr) = pr # prs"
    and d: "DELAYS speaker = Some delay"
    and dir: "if pl < pr then speaker ! 1 \<noteq> CHR ''R'' else speaker ! 1 \<noteq> CHR ''L''"
    and early: "delay \<le> real (min pl pr) / real fs * 1000"
    and inl: "real (min pl pr) / real fs * 1000 - delay
                \<le> of_int (len_ms (mono_segment xl fs wl))"
    and inr: "real (min pl pr) / real fs * 1000 - delay
                \<le> of_int (len_ms (mono_segment xr fs wr))"
  shows "\<exists>yl yr.
      crop_ir_head find_peaks (mono_segment xl fs wl) (mono_segment xr fs wr) speaker =
        Inr (mono_segment yl fs wl, mono_segment yr fs wr) \<and>
      keeps (3 * (real fs / 2000) + 6) xl yl S \<and>
      keeps (3 * (real fs / 2000) + 6) xr yr S \<and>
      S \<le> min pl pr \<and>
      delay * (real fs / 1000) \<le> real (min pl pr - S) \<and>
      real (min pl pr - S) < delay * (real fs / 1000) + 1 \<and>
      (delay + itd) * (real fs / 1000) \<le> real (max pl pr - S) \<and>
      real (max pl pr - S) < (delay + itd) * (real fs / 1000) + 1"
proof -
  define a where "a = real (min pl pr) / real fs * 1000 - delay"
  define c where "c = delay * (real fs / 1000)"
  have d0: "0 \<le> delay"
    using d by (auto simp: DELAYS_def split: if_splits)
  have c0: "0 \<le> c" unfolding c_def using d0 by simp
  have ax: "a * (real fs / 1000) = real (min pl pr) - c"
    unfolding a_def c_def using fs by (simp add: field_simps)
  have a0: "0 \<le> a" unfolding a_def using early by simp
  have cn: "c \<le> real (min pl pr)"
    using a0 ax fs by (metis diff_ge_0_iff_ge divide_nonneg_nonneg mult_nonneg_nonneg
        of_nat_0_le_iff zero_le_numeral)
  have S: "S = nat \<lfloor>real (min pl pr) - c\<rfloor>" by (simp add: S_def c_def)
  have start: "crop_ir_head find_peaks (mono_segment xl fs wl) (mono_segment xr fs wr) speaker =
      trim_heads (mono_segment xl fs wl) a (mono_segment xr fs wr) a"
    unfolding a_def
    using crop_ir_head_same_start [of "mono_segment xl fs wl" "mono_segment xr fs wr"
        find_peaks pl pls pr prs speaker delay] fs pl pr d dir
    by (simp add: mono_segment_fields)
  from trim_heads_mono [OF fs a0 inl [folded a_def] inr [folded a_def]]
  obtain yl yr where
    t: "trim_heads (mono_segment xl fs wl) a (mono_segment xr fs wr) a =
          Inr (mono_segment yl fs wl, mono_segment yr fs wr)"
    and kl: "keeps (3 * (real fs / 2000) + 6) xl yl (nat \<lfloor>a * (real fs / 1000)\<rfloor>)"
    and kr: "keeps (3 * (real fs / 2000) + 6) xr yr (nat \<lfloor>a * (real fs / 1000)\<rfloor>)"
    by blast
  have Sa: "nat \<lfloor>a * (real fs / 1000)\<rfloor> = S" by (simp only: ax S)
  note near = onset_position [OF c0 cn, folded S]
  have itd: "itd * (real fs / 1000) = real (max pl pr) - real (min pl pr)"
    unfolding itd_def using fs by (simp add: field_simps max_def min_def abs_if)
  have mm: "min pl pr \<le> max pl pr" by simp
  have far: "real (max pl pr - S) = real (max pl pr) - real (min pl pr) + real (min pl pr - S)"
  proof -
    have "S \<le> max pl pr" using near(1) mm by (rule order_trans)
    then have "real (max pl pr - S) = real (max pl pr) - real S" by (rule of_nat_diff)
    moreover have "real (min pl pr - S) = real (min pl pr) - real S"
      using near(1) by (rule of_nat_diff)
    ultimately show ?thesis by linarith
  qed
  have sum: "(delay + itd) * (real fs / 1000) = c + itd * (real fs / 1000)"
    unfolding c_def by (rule distrib_right)
  have f1: "(delay + itd) * (real fs / 1000) \<le> real (max pl pr - S)"
    unfolding sum using near(2) itd far by linarith
  have f2: "real (max pl pr - S) < (delay + itd) * (real fs / 1000) + 1"
    unfolding sum using near(3) itd far by linarith
  have res: "crop_ir_head find_peaks (mono_segment xl fs wl) (mono_segment xr fs wr) speaker =
      Inr (mono_segment yl fs wl, mono_segment yr fs wr)"
    using start t by (rule trans)
  show ?thesis
    by (intro exI [of _ yl] exI [of _ yr] conjI)
      (fact res kl [unfolded Sa] kr [unfolded Sa] near [unfolded c_def] f1 f2)+
qed

theorem crop_ir_head_alignment_witness:
  "\<exists>yl yr. crop_ir_head first_nonzero (impulse 20) (impulse 30) ''FL'' =
       Inr (mono_segment yl 48000 2, mono_segment yr 48000 2) \<and>
     yl ! 8 = 20000 \<and> yr ! 18 = 20000"
proof -
  have l: "len_ms (mono_segment (replicate 20 0 @ 20000 # replicate 219 0) 48000 2) = 5"
          "len_ms (mono_segment (replicate 30 0 @ 20000 # replicate 209 0) 48000 2) = 5"
    using len_ms_impulse [of 20] len_ms_impulse [of 30] by (simp_all add: impulse_def)
  have p: "first_nonzero (mono_segment (replicate 20 0 @ 20000 # replicate 219 0) 48000 2) = [20]"
          "first_nonzero (mono_segment (replicate 30 0 @ 20000 # replicate 209 0) 48000 2) = [30]"
    using first_nonzero_impulse [of 20] first_nonzero_impulse [of 30]
    by (simp_all add: impulse_def)
  from crop_ir_head_alignment [where find_peaks = first_nonzero
      and xl = "replicate 20 0 @ 20000 # replicate 219 0"
      and xr = "replicate 30 0 @ 20000 # replicate 209 0"
      and fs = 48000 and wl = 2 and wr = 2 and pl = 20 and pls = "[]" and pr = 30 and prs = "[]"
      and speaker = "''FL''" and delay = "1487 / 10000"]
  obtain yl yr where
    r: "crop_ir_head first_nonzero (impulse 20) (impulse 30) ''FL'' =
          Inr (mono_segment yl 48000 2, mono_segment yr 48000 2)"
    and kl: "keeps 78 (replicate 20 0 @ 20000 # replicate 219 0) yl 12"
    and kr: "keeps 78 (replicate 30 0 @ 20000 # replicate 209 0) yr 12"
    by (auto simp: l p DELAYS_simps impulse_def)
  have "yl ! 8 = 20000"
    using kl [unfolded keeps_def, rule_format, of 8] by (simp add: nth_append)
  moreover have "yr ! 18 = 20000"
    using kr [unfolded keeps_def, rule_format, of 18] by (simp add: nth_append)
  ultimately show ?thesis using r by blast
qed

text \<open>
  Claim C1. The near ear's onset is to land at the configured delay of the channel.
  When the near peak is earlier than that delay, the start \<^verbatim>\<open>peak - delay\<close> of
  the slice is negative and pydub counts it from the end of the buffer: with peaks
  at samples 3 and 5 at 48 kHz and the channel FL (delay 0.1487 ms), both ears above
  the energy threshold and in the order FL asks for, \<open>crop_ir_head\<close> returns two
  empty buffers, and no onset is left in either ear.
\<close>

theorem crop_ir_head_early_peak:
  "crop_ir_head first_nonzero (impulse 3) (impulse 5) ''FL'' =
     Inr (mono_segment [] 48000 2, mono_segment [] 48000 2)"
proof -
  have "crop_ir_head first_nonzero (impulse 3) (impulse 5) ''FL'' =
      trim_heads (impulse 3) (- (431 / 5000)) (impulse 5) (- (431 / 5000))"
    using crop_ir_head_same_start [of "impulse 3" "impulse 5" first_nonzero 3 "[]" 5 "[]"
        "''FL''" "1487 / 10000"]
    by (simp add: first_nonzero_impulse DELAYS_simps) (simp add: impulse_def mono_segment_fields)
  also have "\<dots> = Inr (mono_segment [] 48000 2, mono_segment [] 48000 2)"
    unfolding trim_heads_def using early_fade
    by (simp add: early_slice bind_simps mono_segment_fields early_crop)
  finally show ?thesis .
qed


text \<open>
  Claim C2. For a left-side source whose two ears have their first peak at the
  same sample (the left onset is not later than the right one), \<open>crop_ir_head\<close>
  raises the channel-direction error: the test \<^verbatim>\<open>peak_left < peak_right\<close> is
  strict, so equal onsets run into the branch of the right-side sources.
\<close>

theorem crop_ir_head_tie_left_source:
  assumes "find_peaks left = p # ps" and "find_peaks right = p # qs"
    and "frame_rate left = frame_rate right"
    and "speaker = ''FL'' \<or> speaker = ''BL'' \<or> speaker = ''SL''"
  shows "crop_ir_head find_peaks left right speaker =
           Inl (ValueError [speaker,
                  ''impulse response has lower delay to right ear than to left.''])"
  using assms by (auto simp: crop_ir_head_def DELAYS_simps Let_def)

theorem crop_ir_head_tie_left_source_witness:
  "crop_ir_head first_nonzero (impulse 20) (impulse 20) ''FL'' =
     Inl (ValueError [''FL'', ''impulse response has lower delay to right ear than to left.''])"
  using crop_ir_head_tie_left_source [of first_nonzero "impulse 20" 20 "[]" "impulse 20" "[]"
      "''FL''"]
  by (simp add: first_nonzero_impulse)

end
